theory Spec2Isabelle
  imports Complex_Main
begin

section \<open>JavaScript values and string operations used by the sources\<close>

text \<open>
  Strings are lists of characters. The values \<^verbatim>\<open>JSON.parse\<close> may return are the JSON
  values; an object is the list of its properties, read with \<open>map_of\<close>. JSON numbers are
  IEEE doubles; nothing in the sources computes with them, so they are an opaque type.
  A value that may be \<^verbatim>\<open>undefined\<close> is an \<open>option\<close> with \<open>None\<close> for \<^verbatim>\<open>undefined\<close>.
\<close>

typedecl jsnumber

datatype json =
    JNull
  | JBool bool
  | JNum jsnumber
  | JStr string
  | JArr "json list"
  | JObj "(string \<times> json) list"

type_synonym jsval = "json option"

datatype js_error = TypeError | SyntaxError

text \<open>\<^verbatim>\<open>s.startsWith(p)\<close>, written so that it evaluates by the simplifier.\<close>

fun starts_with :: "string \<Rightarrow> string \<Rightarrow> bool" where
  "starts_with s [] = True"
| "starts_with [] (p # ps) = False"
| "starts_with (c # cs) (p # ps) = (c = p \<and> starts_with cs ps)"

text \<open>\<^verbatim>\<open>s.includes(sub)\<close>: \<open>sub\<close> occurs in \<open>s\<close> as a contiguous substring (case-sensitive).\<close>

fun str_includes :: "string \<Rightarrow> string \<Rightarrow> bool" where
  "str_includes [] sub = (sub = [])"
| "str_includes (c # cs) sub = (starts_with (c # cs) sub \<or> str_includes cs sub)"

text \<open>\<^verbatim>\<open>s.split(sep)\<close> for a one-character separator: always at least one piece.\<close>

fun split :: "string \<Rightarrow> char \<Rightarrow> string list" where
  "split [] sep = [[]]"
| "split (c # cs) sep =
     (if c = sep then [] # split cs sep
      else (case split cs sep of
              [] \<Rightarrow> [[c]]
            | p # ps \<Rightarrow> (c # p) # ps))"

text \<open>\<^verbatim>\<open>xs.pop()\<close> read for its result only: the last element, \<^verbatim>\<open>undefined\<close> on \<open>[]\<close>.\<close>

fun pop :: "'a list \<Rightarrow> 'a option" where
  "pop [] = None"
| "pop [x] = Some x"
| "pop (x # y # ys) = pop (y # ys)"

text \<open>\<^verbatim>\<open>v || d\<close> for a string-or-undefined \<open>v\<close>: \<^verbatim>\<open>undefined\<close> and \<^verbatim>\<open>""\<close> are falsy.\<close>

fun or_else :: "string option \<Rightarrow> string \<Rightarrow> string" where
  "or_else None d = d"
| "or_else (Some s) d = (if s = [] then d else s)"

text \<open>
  \<^verbatim>\<open>xs.findIndex(p)\<close>: the index of the first element satisfying \<open>p\<close>, \<open>-1\<close> when there
  is none.
\<close>

fun findIndex :: "'a list \<Rightarrow> ('a \<Rightarrow> bool) \<Rightarrow> int" where
  "findIndex [] p = -1"
| "findIndex (x # xs) p =
     (if p x then 0
      else (let i = findIndex xs p in if i < 0 then -1 else i + 1))"

section \<open>Data model (\<^verbatim>\<open>src/types.ts\<close>)\<close>

datatype AgentRole =
  Conductor | Research_Lead | Specialized_Researcher | Coder | Validator | System

datatype log_type = info | success | warning | error

datatype role = user | assistant | system

datatype mode = precision | speed

text \<open>
  The interface \<^verbatim>\<open>CodeProposal\<close> declares three strings, but its values are read off
  parsed JSON unchecked, so at run time each field holds whatever the block held.
\<close>

record CodeProposal =
  fileName :: jsval
  prop_content :: jsval
  description :: jsval

record ProjectFile =
  name :: string
  content :: jsval
  language :: string

record Project =
  proj_id :: string
  proj_name :: string
  files :: "ProjectFile list"
  createdAt :: int

record ActivityLog =
  log_id :: string
  timestamp :: int
  agent :: AgentRole
  message :: string
  type :: log_type

record ChatMessage =
  msg_id :: string
  msg_role :: role
  msg_content :: string
  pendingChange :: "CodeProposal option"

record SystemConfig =
  conductorModel :: string
  researchModel :: string
  coderModel :: string
  validatorModel :: string
  searchEngineId :: "string option"

record source =
  title :: string
  uri :: string

section \<open>The remote model API and the other sources of nondeterminism\<close>

datatype tool = googleSearch

record request =
  model :: string
  contents :: string
  temperature :: "rat option"
  systemInstruction :: "string option"
  thinkingBudget :: "nat option"
  tools :: "tool list"

text \<open>
  A response of \<^verbatim>\<open>generateContent\<close>: its \<^verbatim>\<open>text\<close> (possibly \<^verbatim>\<open>undefined\<close>) and the
  grounding chunks of its first candidate (\<open>None\<close> when any link of the optional chain
  \<^verbatim>\<open>candidates?.[0]?.groundingMetadata?.groundingChunks\<close> is missing), each chunk an
  object with its \<^verbatim>\<open>web\<close> entry, possibly missing.
\<close>

record response =
  resp_text :: "string option"
  groundingChunks :: "source option list option"

datatype api_error = ApiError (error_message: string)

datatype gateway_op = op_conduct | op_research | op_validateCode

text \<open>
  The environment holds what the program cannot decide: the \<open>k\<close>-th result of
  \<^verbatim>\<open>Math.random().toString()\<close> and of \<^verbatim>\<open>Date.now()\<close>, the outcome of the \<open>k\<close>-th
  \<^verbatim>\<open>generateContent\<close> request (a thrown error or a response), and the two functions of
  the JavaScript runtime the sources call: \<^verbatim>\<open>JSON.parse\<close> (\<open>None\<close> when it throws) and the
  conversion of a number to a string.
\<close>

record env =
  random_src :: "nat \<Rightarrow> string"
  now_src :: "nat \<Rightarrow> int"
  backend :: "nat \<Rightarrow> request \<Rightarrow> api_error + response"
  JSON_parse :: "string \<Rightarrow> json option"
  Number_toString :: "jsnumber \<Rightarrow> string"

text \<open>
  The state: the hooks of \<^verbatim>\<open>ProjectView\<close>, the project it shows and the activity list of
  \<^verbatim>\<open>App\<close> (what \<^verbatim>\<open>onUpdateProject\<close> and \<^verbatim>\<open>onAddLog\<close> write), the number of random
  identifiers and clock readings drawn so far, and the requests sent so far, each with
  the gateway method that sent it.
\<close>

record state =
  project :: Project
  activity :: "ActivityLog list"
  messages :: "ChatMessage list"
  inputValue :: string
  isProcessing :: bool
  aiMode :: mode
  pendingProposal :: "CodeProposal option"
  validationReport :: "string option option"
  researchSources :: "source list"
  randoms_drawn :: nat
  clock_reads :: nat
  calls :: "(gateway_op \<times> request) list"

definition Math_random_toString :: "env \<Rightarrow> state \<Rightarrow> string \<times> state" where
  "Math_random_toString e s =
     (random_src e (randoms_drawn s), s\<lparr>randoms_drawn := Suc (randoms_drawn s)\<rparr>)"

definition Date_now :: "env \<Rightarrow> state \<Rightarrow> int \<times> state" where
  "Date_now e s = (now_src e (clock_reads s), s\<lparr>clock_reads := Suc (clock_reads s)\<rparr>)"

text \<open>
  \<^verbatim>\<open>onAddLog({id: Math.random().toString(), timestamp: Date.now(), agent, message, type})\<close>:
  the entry is built, then \<^verbatim>\<open>addLog\<close> of \<^verbatim>\<open>App\<close> appends it to the activity list.
\<close>

definition onAddLog :: "env \<Rightarrow> AgentRole \<Rightarrow> string \<Rightarrow> log_type \<Rightarrow> state \<Rightarrow> state" where
  "onAddLog e a m t s =
     (let (i, s1) = Math_random_toString e s;
          (n, s2) = Date_now e s1
      in s2\<lparr>activity := activity s2 @
                [\<lparr>log_id = i, timestamp = n, agent = a, message = m, type = t\<rparr>]\<rparr>)"

section \<open>\<^verbatim>\<open>approveProposal\<close> (\<^verbatim>\<open>src/components/ProjectView.tsx\<close>)\<close>

text \<open>
  \<^verbatim>\<open>pendingProposal.fileName.split('.').pop() || 'txt'\<close>. Only a string has \<^verbatim>\<open>split\<close>: on any
  other value the call throws a \<^verbatim>\<open>TypeError\<close>.
\<close>

definition language_of :: "string \<Rightarrow> string" where
  "language_of fn = or_else (pop (split fn (CHR ''.''))) ''txt''"

text \<open>
  The handler returns at once when nothing is pending. Otherwise it looks the file name
  up, builds the new file (the only step that can throw), writes it over the file found
  or pushes it, hands the project to \<^verbatim>\<open>onUpdateProject\<close>, appends a system message,
  clears the pending proposal and the validation report, and logs. A throw happens
  before any state is written, so it leaves the state as it was. Identifiers are drawn
  in the order of the source text; the system message is built inside its state updater,
  which React may run after the log entry is built, and nothing stated below depends on
  which draw an identifier comes from.
\<close>

definition approveProposal :: "env \<Rightarrow> state \<Rightarrow> js_error + state" where
  "approveProposal e s =
     (case pendingProposal s of
        None \<Rightarrow> Inr s
      | Some p \<Rightarrow>
          (let existingFileIndex =
                 findIndex (files (project s)) (\<lambda>f. Some (JStr (name f)) = fileName p);
               updatedFiles = files (project s)
           in case fileName p of
                Some (JStr fn) \<Rightarrow>
                  (let newFile = \<lparr>name = fn, content = prop_content p,
                                  language = language_of fn\<rparr>;
                       updatedFiles' =
                         (if existingFileIndex \<ge> 0
                          then updatedFiles[nat existingFileIndex := newFile]
                          else updatedFiles @ [newFile]);
                       s1 = s\<lparr>project := (project s)\<lparr>files := updatedFiles'\<rparr>\<rparr>;
                       (i, s2) = Math_random_toString e s1;
                       s3 = s2\<lparr>messages := messages s2 @
                              [\<lparr>msg_id = i, msg_role = system,
                                msg_content = ''Integrated changes to workspace: '' @ fn,
                                pendingChange = None\<rparr>]\<rparr>;
                       s4 = s3\<lparr>pendingProposal := None\<rparr>;
                       s5 = s4\<lparr>validationReport := None\<rparr>
                   in Inr (onAddLog e Validator (''Persisted '' @ fn @ '' to workspace.'')
                             success s5))
              | _ \<Rightarrow> Inl TypeError))"

text \<open>
  The two buttons that discard a proposal (the close button and "Discard Artifact")
  both run \<^verbatim>\<open>() => setPendingProposal(null)\<close>.
\<close>

definition discardProposal :: "state \<Rightarrow> state" where
  "discardProposal s = s\<lparr>pendingProposal := None\<rparr>"

section \<open>More string operations\<close>

definition newline :: char where
  "newline = CHR 0x0A"

text \<open>\<^verbatim>\<open>xs.join(sep)\<close> on an array of strings.\<close>

fun join :: "string list \<Rightarrow> string \<Rightarrow> string" where
  "join [] sep = []"
| "join [x] sep = x"
| "join (x # y # ys) sep = x @ sep @ join (y # ys) sep"

text \<open>
  What a template literal \<^verbatim>\<open>${v}\<close> inserts for a value: \<^verbatim>\<open>undefined\<close> and \<^verbatim>\<open>null\<close> by
  name, a string as it is, an array as its elements joined by commas (\<^verbatim>\<open>null\<close> elements
  as the empty string). An object is converted by its \<^verbatim>\<open>toString\<close>: the inherited one
  gives \<^verbatim>\<open>[object Object]\<close>, but a parsed object with a key \<^verbatim>\<open>toString\<close> of its own holds
  there a value that cannot be called, and the conversion throws a \<^verbatim>\<open>TypeError\<close>. The
  elements of an array are converted in order, so the first throw is the one that
  leaves.
\<close>

fun collect :: "(js_error + string) list \<Rightarrow> js_error + string list" where
  "collect [] = Inr []"
| "collect (Inl err # rs) = Inl err"
| "collect (Inr t # rs) =
     (case collect rs of
        Inl err \<Rightarrow> Inl err
      | Inr ts \<Rightarrow> Inr (t # ts))"

fun ToString :: "(jsnumber \<Rightarrow> string) \<Rightarrow> json \<Rightarrow> js_error + string" where
  "ToString f JNull = Inr ''null''"
| "ToString f (JBool b) = Inr (if b then ''true'' else ''false'')"
| "ToString f (JNum n) = Inr (f n)"
| "ToString f (JStr s) = Inr s"
| "ToString f (JArr xs) =
     (case collect (map (\<lambda>x. if x = JNull then Inr [] else ToString f x) xs) of
        Inl err \<Rightarrow> Inl err
      | Inr ts \<Rightarrow> Inr (join ts '',''))"
| "ToString f (JObj kvs) =
     (if map_of kvs ''toString'' = None then Inr ''[object Object]'' else Inl TypeError)"

definition template :: "(jsnumber \<Rightarrow> string) \<Rightarrow> jsval \<Rightarrow> js_error + string" where
  "template f v = (case v of None \<Rightarrow> Inr ''undefined'' | Some j \<Rightarrow> ToString f j)"

definition template_str :: "string option \<Rightarrow> string" where
  "template_str v = (case v of None \<Rightarrow> ''undefined'' | Some t \<Rightarrow> t)"

text \<open>
  \<^verbatim>\<open>s.trim()\<close>: white space is dropped at both ends. A character stands for a code unit
  below 256, so the white space of JavaScript is the six ASCII characters and the
  no-break space.
\<close>

definition is_whitespace :: "char \<Rightarrow> bool" where
  "is_whitespace c =
     (c = CHR 0x09 \<or> c = CHR 0x0A \<or> c = CHR 0x0B \<or> c = CHR 0x0C \<or> c = CHR 0x0D \<or>
      c = CHR 0x20 \<or> c = CHR 0xA0)"

definition trim :: "string \<Rightarrow> string" where
  "trim s = rev (dropWhile is_whitespace (rev (dropWhile is_whitespace s)))"

text \<open>
  The flag \<^verbatim>\<open>i\<close> of a regular expression whose pattern is made of ASCII letters and
  spaces: a character of the input matches a pattern character when its lower-case form
  does, and only the letters \<open>A\<close> to \<open>Z\<close> have one.
\<close>

definition toLowerCase :: "char \<Rightarrow> char" where
  "toLowerCase c =
     (case map_of (zip ''ABCDEFGHIJKLMNOPQRSTUVWXYZ'' ''abcdefghijklmnopqrstuvwxyz'') c of
        Some l \<Rightarrow> l
      | None \<Rightarrow> c)"

text \<open>
  \<^verbatim>\<open>/research|search|find|documentation|info|who is|what is/i.test(s)\<close>: no anchors, so
  the test succeeds when one of the alternatives occurs anywhere in \<open>s\<close>.
\<close>

definition needsResearch :: "string \<Rightarrow> bool" where
  "needsResearch s =
     (let l = map toLowerCase s
      in str_includes l ''research'' \<or> str_includes l ''search'' \<or> str_includes l ''find'' \<or>
         str_includes l ''documentation'' \<or> str_includes l ''info'' \<or>
         str_includes l ''who is'' \<or> str_includes l ''what is'')"

section \<open>The gateway (\<^verbatim>\<open>TrinityService\<close>)\<close>

text \<open>
  \<^verbatim>\<open>ai.models.generateContent(request)\<close>: the request is sent and the environment decides
  its outcome. A request is the model, the text of its one user part and the options
  the sources set. Building the client (\<^verbatim>\<open>getAI\<close>, which every method calls outside its
  \<^verbatim>\<open>try\<close>) is taken to succeed: the failures modelled are those of the request.
\<close>

definition generateContent ::
  "env \<Rightarrow> gateway_op \<Rightarrow> request \<Rightarrow> state \<Rightarrow> (api_error + response) \<times> state" where
  "generateContent e g r s =
     (backend e (length (calls s)) r, s\<lparr>calls := calls s @ [(g, r)]\<rparr>)"

definition system_instruction :: "string \<Rightarrow> string" where
  "system_instruction context = join
     [''You are the \"Conductor\" of the Trinity Agent System.'',
      ''      Current Workspace Context: '' @ context,
      ''      '',
      ''      Your goal is to fulfill user requests by orchestrating your sub-agents:'',
      ''      1. Research Team: Used for technical grounding.'',
      ''      2. Coder: Synthesizes implementations.'',
      ''      3. Validator: Verifies logic.'',
      [],
      ''      When proposing a code change, you MUST respond with a JSON block in this exact format:'',
      ''      ```json'',
      ''      {'',
      ''        \"action\": \"propose_code\",'',
      ''        \"fileName\": \"example.ts\",'',
      ''        \"content\": \"the actual code\",'',
      ''        \"description\": \"why this change was made\"'',
      ''      }'',
      ''      ```'',
      ''      Keep conversational text professional and concise.''] [newline]"

text \<open>The model \<^verbatim>\<open>conduct\<close> sends the request to.\<close>

definition conduct_model :: "mode \<Rightarrow> SystemConfig \<Rightarrow> string" where
  "conduct_model m config =
     (let isPrecision = (m = precision)
      in if isPrecision then conductorModel config else ''gemini-flash-lite-latest'')"

text \<open>The request \<^verbatim>\<open>conduct\<close> builds: the model, the prompt and \<^verbatim>\<open>genConfig\<close>.\<close>

definition conduct_request :: "string \<Rightarrow> string \<Rightarrow> mode \<Rightarrow> SystemConfig \<Rightarrow> request" where
  "conduct_request prompt context m config =
     (let isPrecision = (m = precision);
          mdl = conduct_model m config;
          genConfig = \<lparr>model = mdl, contents = prompt, temperature = Some (7 / 10),
                       systemInstruction = Some (system_instruction context),
                       thinkingBudget = None, tools = []\<rparr>
      in if isPrecision \<and> (str_includes mdl ''pro'' \<or> str_includes mdl ''gemini-3'' \<or>
                            str_includes mdl ''gemini-2.5'')
         then (let budget = (if str_includes mdl ''pro'' then 32768 else 24576)
               in genConfig\<lparr>thinkingBudget := Some budget\<rparr>)
         else genConfig)"

definition conduct ::
  "env \<Rightarrow> string \<Rightarrow> string \<Rightarrow> mode \<Rightarrow> SystemConfig \<Rightarrow> state
     \<Rightarrow> (api_error + string option) \<times> state" where
  "conduct e prompt context m config s =
     (let isPrecision = (m = precision);
          mdl = conduct_model m config;
          s1 = onAddLog e Conductor
                 (''Initiating '' @ (if isPrecision then ''High-Reasoning'' else ''High-Speed'') @
                  '' orchestration via '' @ mdl @ ''...'') info s;
          (r, s2) = generateContent e op_conduct (conduct_request prompt context m config) s1
      in case r of
           Inr resp \<Rightarrow> (Inr (resp_text resp), s2)
         | Inl err \<Rightarrow>
             (Inl err,
              onAddLog e Conductor (''API Exception: '' @ error_message err) error s2))"

record research_result =
  res_text :: "string option"
  sources :: "source list"

definition research_request :: "string \<Rightarrow> SystemConfig \<Rightarrow> request" where
  "research_request query config =
     \<lparr>model = researchModel config,
      contents = ''Perform deep technical research for: '' @ query @
        ''. Focus on implementation details, API patterns, and potential edge cases.'',
      temperature = None, systemInstruction = None, thinkingBudget = None,
      tools = [googleSearch]\<rparr>"

text \<open>\<^verbatim>\<open>chunks?.map(chunk => chunk.web).filter(Boolean) || []\<close>\<close>

definition grounding_sources :: "source option list option \<Rightarrow> source list" where
  "grounding_sources chunks =
     (case chunks of None \<Rightarrow> [] | Some ws \<Rightarrow> List.map_filter (\<lambda>w. w) ws)"

definition research ::
  "env \<Rightarrow> string \<Rightarrow> SystemConfig \<Rightarrow> state \<Rightarrow> research_result \<times> state" where
  "research e query config s =
     (let s1 = onAddLog e Research_Lead
                 (''Triggering technical search grounding for: '' @ query) info s;
          (r, s2) = generateContent e op_research (research_request query config) s1
      in case r of
           Inr resp \<Rightarrow>
             (let s3 = onAddLog e Specialized_Researcher
                         ''Grounding complete. Key findings identified.'' success s2
              in (\<lparr>res_text = resp_text resp,
                   sources = grounding_sources (groundingChunks resp)\<rparr>, s3))
         | Inl err \<Rightarrow>
             (\<lparr>res_text = Some ''Research swarm was unable to reach the web. Proceeding with internal knowledge base.'',
               sources = []\<rparr>, s2))"

text \<open>
  The text of the validation request: the requirements are inserted first, then the
  code, and either insertion may throw.
\<close>

definition validate_contents :: "env \<Rightarrow> jsval \<Rightarrow> jsval \<Rightarrow> js_error + string" where
  "validate_contents e code requirements =
     (case template (Number_toString e) requirements of
        Inl err \<Rightarrow> Inl err
      | Inr r \<Rightarrow>
          (case template (Number_toString e) code of
             Inl err \<Rightarrow> Inl err
           | Inr c \<Rightarrow>
               Inr (''Review this code for correctness and adherence to: '' @ r @
                    [newline, newline] @ ''Code:'' @ [newline] @ c)))"

text \<open>
  The validation request. When its text cannot be built there is no request: the
  contents are left empty here, and \<^verbatim>\<open>validateCode\<close> sends nothing then.
\<close>

definition validate_request ::
  "env \<Rightarrow> jsval \<Rightarrow> jsval \<Rightarrow> SystemConfig \<Rightarrow> request" where
  "validate_request e code requirements config =
     \<lparr>model = validatorModel config,
      contents = (case validate_contents e code requirements of
                    Inr t \<Rightarrow> t
                  | Inl err \<Rightarrow> []),
      temperature = Some (1 / 10), systemInstruction = None, thinkingBudget = None,
      tools = []\<rparr>"

text \<open>
  The request object is built inside the \<^verbatim>\<open>try\<close>, so a throw of the template literal is
  caught like a failure of the request, before anything is sent.
\<close>

definition validateCode ::
  "env \<Rightarrow> jsval \<Rightarrow> jsval \<Rightarrow> SystemConfig \<Rightarrow> state \<Rightarrow> string option \<times> state" where
  "validateCode e code requirements config s =
     (let s1 = onAddLog e Validator
                 ''Performing logical validation on generated artifacts...'' info s
      in case validate_contents e code requirements of
           Inl err \<Rightarrow>
             (Some ''Validation node timed out. Manual review highly recommended.'', s1)
         | Inr t \<Rightarrow>
             (let (r, s2) = generateContent e op_validateCode
                              (validate_request e code requirements config) s1
              in case r of
                   Inr resp \<Rightarrow> (resp_text resp, s2)
                 | Inl err \<Rightarrow>
                     (Some ''Validation node timed out. Manual review highly recommended.'',
                      s2)))"

section \<open>\<^verbatim>\<open>handleSendMessage\<close> (\<^verbatim>\<open>src/components/ProjectView.tsx\<close>)\<close>

subsection \<open>The proposal parser\<close>

definition fence_open :: string where
  "fence_open = ''```json'' @ [newline]"

definition fence_close :: string where
  "fence_close = newline # ''```''"

text \<open>
  \<^verbatim>\<open>([\s\S]*?)\n```\<close> tried at the start of \<open>s\<close>: the lazy group takes the fewest characters
  after which the closing fence follows.
\<close>

fun lazy_until_close :: "string \<Rightarrow> string option" where
  "lazy_until_close [] = None"
| "lazy_until_close (c # cs) =
     (if starts_with (c # cs) fence_close then Some []
      else map_option ((#) c) (lazy_until_close cs))"

text \<open>
  \<^verbatim>\<open>response.match(/```json\n([\s\S]*?)\n```/)\<close>, read for its group 1: the expression is
  tried at each position from the left, and the first position where it matches wins.
\<close>

fun match_json_block :: "string \<Rightarrow> string option" where
  "match_json_block [] = None"
| "match_json_block (c # cs) =
     (if starts_with (c # cs) fence_open
      then (case lazy_until_close (drop (length fence_open) (c # cs)) of
              Some body \<Rightarrow> Some body
            | None \<Rightarrow> match_json_block cs)
      else match_json_block cs)"

text \<open>
  \<^verbatim>\<open>data.k\<close> for the four names the handler reads (\<^verbatim>\<open>action\<close>, \<^verbatim>\<open>fileName\<close>, \<^verbatim>\<open>content\<close>,
  \<^verbatim>\<open>description\<close>): reading a property of \<^verbatim>\<open>null\<close> throws, an object gives the value
  stored under the key or \<^verbatim>\<open>undefined\<close>, and no other value has a property of these
  names.
\<close>

fun get_prop :: "json \<Rightarrow> string \<Rightarrow> js_error + jsval" where
  "get_prop JNull k = Inl TypeError"
| "get_prop (JObj kvs) k = Inr (map_of kvs k)"
| "get_prop (JBool b) k = Inr None"
| "get_prop (JNum n) k = Inr None"
| "get_prop (JStr s) k = Inr None"
| "get_prop (JArr xs) k = Inr None"

text \<open>
  The body of \<^verbatim>\<open>if (jsonMatch)\<close> up to the assignment of \<^verbatim>\<open>proposal\<close>: \<^verbatim>\<open>JSON.parse\<close> may
  throw, the read of \<^verbatim>\<open>data.action\<close> may throw, and a block whose action is not the
  string \<^verbatim>\<open>propose_code\<close> leaves \<^verbatim>\<open>proposal\<close> at \<^verbatim>\<open>null\<close>.
\<close>

definition read_proposal :: "env \<Rightarrow> string \<Rightarrow> js_error + CodeProposal option" where
  "read_proposal e body =
     (case JSON_parse e body of
        None \<Rightarrow> Inl SyntaxError
      | Some data \<Rightarrow>
          (case get_prop data ''action'' of
             Inl err \<Rightarrow> Inl err
           | Inr a \<Rightarrow>
               if a = Some (JStr ''propose_code'')
               then (case (get_prop data ''fileName'', get_prop data ''content'',
                           get_prop data ''description'') of
                       (Inr f, Inr c, Inr d) \<Rightarrow>
                         Inr (Some \<lparr>fileName = f, prop_content = c, description = d\<rparr>)
                     | _ \<Rightarrow> Inl TypeError)
               else Inr None))"

text \<open>
  The proposal of a response: \<^verbatim>\<open>response?.match\<close> gives nothing on \<^verbatim>\<open>undefined\<close>, and the
  \<^verbatim>\<open>catch\<close> around the block turns every throw into "no proposal" (it only warns on
  the console).
\<close>

definition parseProposal :: "env \<Rightarrow> string option \<Rightarrow> CodeProposal option" where
  "parseProposal e response =
     (case response of
        None \<Rightarrow> None
      | Some t \<Rightarrow>
          (case match_json_block t of
             None \<Rightarrow> None
           | Some body \<Rightarrow>
               (case read_proposal e body of
                  Inl err \<Rightarrow> None
                | Inr p \<Rightarrow> p)))"

subsection \<open>The turn\<close>

text \<open>
  Lines 43 to 52: the user message is appended, the input is cleared, the processing flag is set
  and the validation report is reset.
\<close>

definition begin_turn :: "env \<Rightarrow> state \<Rightarrow> state" where
  "begin_turn e s =
     (let (i, s1) = Math_random_toString e s;
          userMsg = \<lparr>msg_id = i, msg_role = user, msg_content = inputValue s,
                     pendingChange = None\<rparr>;
          s2 = s1\<lparr>messages := messages s1 @ [userMsg]\<rparr>;
          s3 = s2\<lparr>inputValue := []\<rparr>;
          s4 = s3\<lparr>isProcessing := True\<rparr>
      in s4\<lparr>validationReport := None\<rparr>)"

definition filesContext :: "Project \<Rightarrow> string" where
  "filesContext p = or_else (Some (join (map name (files p)) '', '')) ''No files yet.''"

text \<open>
  Lines 57 to 66: the prompt sent to the conductor, after the research step when the
  heuristic asks for one.
\<close>

definition research_step ::
  "env \<Rightarrow> SystemConfig \<Rightarrow> string \<Rightarrow> state \<Rightarrow> string \<times> state" where
  "research_step e config input s =
     (if needsResearch input
      then (let (researchResult, s1) = research e input config s;
                augmentedPrompt = ''Research Findings:'' @ [newline] @
                  template_str (res_text researchResult) @ [newline, newline] @
                  ''Original Request: '' @ input
            in (augmentedPrompt,
                s1\<lparr>researchSources := sources researchResult @ researchSources s1\<rparr>))
      else (input, s))"

text \<open>
  Lines 70 to 97: the proposal of the response and, when there is one, its validation.
\<close>

definition proposal_step ::
  "env \<Rightarrow> SystemConfig \<Rightarrow> string option \<Rightarrow> state \<Rightarrow> CodeProposal option \<times> state" where
  "proposal_step e config response s =
     (case parseProposal e response of
        None \<Rightarrow> (None, s)
      | Some p \<Rightarrow>
          (let (report, s1) = validateCode e (prop_content p) (description p) config s;
               s2 = s1\<lparr>validationReport := Some report\<rparr>
           in (Some p,
               onAddLog e Validator ''Artifact check complete. Health: OPTIMAL.'' success s2)))"

text \<open>Lines 99 to 107: the assistant message and the pending proposal.\<close>

definition finish_turn ::
  "env \<Rightarrow> string option \<Rightarrow> CodeProposal option \<Rightarrow> state \<Rightarrow> state" where
  "finish_turn e response proposal s =
     (let (i, s1) = Math_random_toString e s;
          assistantMsg = \<lparr>msg_id = i, msg_role = assistant,
                          msg_content = or_else response ''Cluster returned empty response.'',
                          pendingChange = proposal\<rparr>;
          s2 = s1\<lparr>messages := messages s1 @ [assistantMsg]\<rparr>
      in case proposal of
           None \<Rightarrow> s2
         | Some p \<Rightarrow> s2\<lparr>pendingProposal := Some p\<rparr>)"

text \<open>
  The handler reads \<^verbatim>\<open>inputValue\<close>, \<^verbatim>\<open>aiMode\<close> and \<^verbatim>\<open>project\<close> as they are when it is
  called. A throw of \<^verbatim>\<open>conduct\<close> is the only one that reaches the outer \<^verbatim>\<open>catch\<close>, which
  logs it; \<^verbatim>\<open>finally\<close> clears the processing flag on both paths.
\<close>

definition handleSendMessage :: "env \<Rightarrow> SystemConfig \<Rightarrow> state \<Rightarrow> state" where
  "handleSendMessage e config s =
     (if trim (inputValue s) = [] \<or> isProcessing s then s
      else
        (let s1 = begin_turn e s;
             (augmentedPrompt, s2) = research_step e config (inputValue s) s1;
             (r, s3) = conduct e augmentedPrompt (filesContext (project s)) (aiMode s)
                         config s2
         in case r of
              Inr response \<Rightarrow>
                (let (proposal, s4) = proposal_step e config response s3;
                     s5 = finish_turn e response proposal s4
                 in s5\<lparr>isProcessing := False\<rparr>)
            | Inl err \<Rightarrow>
                (onAddLog e Conductor (''Cluster Error: '' @ error_message err) error s3)
                  \<lparr>isProcessing := False\<rparr>))"

section \<open>Notions the properties are stated with\<close>

text \<open>
  The part of a file name after its last dot, in the words of the specification; the
  whole name when it has no dot.
\<close>

definition after_last_dot :: "string \<Rightarrow> string" where
  "after_last_dot fn = rev (takeWhile (\<lambda>c. c \<noteq> CHR ''.'') (rev fn))"

text \<open>The error-severity entries of the agent "Conductor" in a list of log entries.\<close>

definition conductor_errors :: "ActivityLog list \<Rightarrow> ActivityLog list" where
  "conductor_errors ls = filter (\<lambda>l. agent l = Conductor \<and> type l = error) ls"

text \<open>The file \<^verbatim>\<open>approveProposal\<close> writes for a proposal named \<open>fn\<close>.\<close>

definition written_file :: "string \<Rightarrow> CodeProposal \<Rightarrow> ProjectFile" where
  "written_file fn p = \<lparr>name = fn, content = prop_content p, language = language_of fn\<rparr>"

text \<open>The two fixed texts of the degraded results.\<close>

definition research_apology :: string where
  "research_apology =
     ''Research swarm was unable to reach the web. Proceeding with internal knowledge base.''"

definition validation_timed_out :: string where
  "validation_timed_out = ''Validation node timed out. Manual review highly recommended.''"

section \<open>Concrete inputs\<close>

text \<open>The configuration \<^verbatim>\<open>App\<close> starts with.\<close>

definition initial_config :: SystemConfig where
  "initial_config =
     \<lparr>conductorModel = ''gemini-3-pro-preview'', researchModel = ''gemini-3-flash-preview'',
      coderModel = ''gemini-3-pro-preview'', validatorModel = ''gemini-3-pro-preview'',
      searchEngineId = Some []\<rparr>"

definition two_files :: Project where
  "two_files =
     \<lparr>proj_id = ''k3x9'', proj_name = ''DEMO'',
      files = [\<lparr>name = ''main.ts'', content = Some (JStr ''let a = 1''), language = ''ts''\<rparr>,
               \<lparr>name = ''utils.ts'', content = Some (JStr ''let b = 2''), language = ''ts''\<rparr>],
      createdAt = 1700000000000\<rparr>"

definition utils_proposal :: CodeProposal where
  "utils_proposal =
     \<lparr>fileName = Some (JStr ''utils.ts''), prop_content = Some (JStr ''export const b = 3''),
      description = Some (JStr ''export b'')\<rparr>"

definition readme_proposal :: CodeProposal where
  "readme_proposal =
     \<lparr>fileName = Some (JStr ''README''), prop_content = Some (JStr ''# Demo''),
      description = Some (JStr ''add a readme'')\<rparr>"

text \<open>A view of the project with the given input, pending proposal and report.\<close>

definition view ::
  "string \<Rightarrow> CodeProposal option \<Rightarrow> string option option \<Rightarrow> state" where
  "view input pending report =
     \<lparr>project = two_files, activity = [], messages = [], inputValue = input,
      isProcessing = False, aiMode = precision, pendingProposal = pending,
      validationReport = report, researchSources = [], randoms_drawn = 0, clock_reads = 0,
      calls = []\<rparr>"

text \<open>
  A response text with one block, and a \<^verbatim>\<open>JSON.parse\<close> that knows the content of that
  block and of the bare block below, and throws on every other text.
\<close>

definition block_body :: string where
  "block_body = ''{\"action\":\"propose_code\",\"fileName\":\"utils.ts\",\"content\":\"export const b = 3\",\"description\":\"export b\"}''"

definition block_object :: json where
  "block_object =
     JObj [(''action'', JStr ''propose_code''), (''fileName'', JStr ''utils.ts''),
           (''content'', JStr ''export const b = 3''), (''description'', JStr ''export b'')]"

text \<open>A block that names the action and nothing else.\<close>

definition bare_body :: string where
  "bare_body = ''{\"action\":\"propose_code\"}''"

definition bare_reply :: string where
  "bare_reply = fence_open @ bare_body @ fence_close"

definition bare_proposal :: CodeProposal where
  "bare_proposal = \<lparr>fileName = None, prop_content = None, description = None\<rparr>"

definition reply_with_block :: string where
  "reply_with_block = ''Here is the change.'' @ [newline] @ fence_open @ block_body @ fence_close"

text \<open>
  An environment whose requests all fail, one whose requests all succeed with the same
  text, and one where exactly the requests with a search tool (those of \<^verbatim>\<open>research\<close>)
  or exactly those of the validator (temperature \<open>0.1\<close>) fail.
\<close>

definition env_with :: "(nat \<Rightarrow> request \<Rightarrow> api_error + response) \<Rightarrow> env" where
  "env_with b =
     \<lparr>random_src = (\<lambda>k. ''0.'' @ replicate (Suc k) (CHR ''7'')),
      now_src = (\<lambda>k. 1700000000000 + int k),
      backend = b,
      JSON_parse = (\<lambda>t. if t = block_body then Some block_object
                        else if t = bare_body then Some (JObj [(''action'', JStr ''propose_code'')])
                        else None),
      Number_toString = (\<lambda>n. ''0'')\<rparr>"

definition offline :: "nat \<Rightarrow> request \<Rightarrow> api_error + response" where
  "offline k r = Inl (ApiError ''Failed to fetch'')"

definition replying :: "string \<Rightarrow> nat \<Rightarrow> request \<Rightarrow> api_error + response" where
  "replying t k r = Inr \<lparr>resp_text = Some t, groundingChunks = None\<rparr>"

definition search_down :: "string \<Rightarrow> nat \<Rightarrow> request \<Rightarrow> api_error + response" where
  "search_down t k r = (if tools r = [googleSearch] then offline k r else replying t k r)"

definition validator_down :: "string \<Rightarrow> nat \<Rightarrow> request \<Rightarrow> api_error + response" where
  "validator_down t k r = (if temperature r = Some (1 / 10) then offline k r else replying t k r)"

definition notes_proposal :: CodeProposal where
  "notes_proposal =
     \<lparr>fileName = Some (JStr ''notes.''), prop_content = Some (JStr ''to do''),
      description = Some (JStr ''keep notes'')\<rparr>"

text \<open>
  The files of the project after \<^verbatim>\<open>approveProposal\<close>; a throw leaves them as they were.
\<close>

definition approved_files :: "env \<Rightarrow> state \<Rightarrow> ProjectFile list" where
  "approved_files e s =
     (case approveProposal e s of
        Inr s' \<Rightarrow> files (project s')
      | Inl err \<Rightarrow> files (project s))"

section \<open>Auxiliary facts\<close>

subsection \<open>Strings\<close>

lemma split_not_Nil: "split s sep \<noteq> []"
  by (induction s) (auto split: list.splits)

lemma pop_last: "xs \<noteq> [] \<Longrightarrow> pop xs = Some (last xs)"
  by (induction xs rule: pop.induct) auto

lemma split_no_sep: "sep \<notin> set s \<Longrightarrow> split s sep = [s]"
  by (induction s) auto

lemma split_two_pieces: "sep \<in> set s \<Longrightarrow> \<exists>p q ps. split s sep = p # q # ps"
proof (induction s)
  case Nil
  then show ?case by simp
next
  case (Cons c cs)
  show ?case
  proof (cases "c = sep")
    case True
    then show ?thesis using split_not_Nil [of cs sep]
      by (cases "split cs sep") auto
  next
    case False
    with Cons.prems have "sep \<in> set cs" by simp
    then obtain p q ps where "split cs sep = p # q # ps"
      using Cons.IH by blast
    with False show ?thesis by simp
  qed
qed

lemma last_split_Cons:
  "last (split (c # cs) sep) =
     (if sep \<in> set cs then last (split cs sep) else if c = sep then cs else c # cs)"
proof (cases "sep \<in> set cs")
  case True
  then obtain p q ps where "split cs sep = p # q # ps"
    using split_two_pieces by blast
  with True show ?thesis by simp
next
  case False
  then show ?thesis by (simp add: split_no_sep)
qed

lemma last_split: "last (split s sep) = rev (takeWhile (\<lambda>c. c \<noteq> sep) (rev s))"
proof (induction s)
  case Nil
  then show ?case by simp
next
  case (Cons c cs)
  show ?case
  proof (cases "sep \<in> set cs")
    case True
    then have "takeWhile (\<lambda>c. c \<noteq> sep) (rev cs @ [c]) = takeWhile (\<lambda>c. c \<noteq> sep) (rev cs)"
      by (intro takeWhile_append1 [of sep]) auto
    with True Cons show ?thesis by (simp add: last_split_Cons del: split.simps)
  next
    case False
    then have "takeWhile (\<lambda>c. c \<noteq> sep) (rev cs @ [c]) = rev cs @ takeWhile (\<lambda>c. c \<noteq> sep) [c]"
      by (intro takeWhile_append2) auto
    with False show ?thesis by (simp add: last_split_Cons del: split.simps)
  qed
qed

lemma language_of_eq:
  "language_of fn = (if after_last_dot fn = [] then ''txt'' else after_last_dot fn)"
  by (simp add: language_of_def after_last_dot_def pop_last split_not_Nil last_split)

lemma after_last_dot_empty: "after_last_dot fn = [] \<longleftrightarrow> fn = [] \<or> last fn = CHR ''.''"
  by (cases fn rule: rev_cases) (auto simp: after_last_dot_def)

lemma after_last_dot_no_dot: "CHR ''.'' \<notin> set fn \<Longrightarrow> after_last_dot fn = fn"
proof -
  assume "CHR ''.'' \<notin> set fn"
  then have "takeWhile (\<lambda>c. c \<noteq> CHR ''.'') (rev fn) = rev fn"
    by (intro takeWhile_eq_all_conv [THEN iffD2]) auto
  then show ?thesis unfolding after_last_dot_def by (simp only: rev_rev_ident)
qed

lemma after_last_dot_after: "CHR ''.'' \<notin> set b \<Longrightarrow> after_last_dot (a @ CHR ''.'' # b) = b"
  by (simp add: after_last_dot_def takeWhile_append)

subsection \<open>The fenced block\<close>

lemma starts_with_append: "starts_with (p @ r) p"
  by (induction p) auto

lemma starts_with_decomp: "starts_with s p \<Longrightarrow> \<exists>r. s = p @ r"
  by (induction s p rule: starts_with.induct) auto

lemma starts_with_iff: "starts_with s p \<longleftrightarrow> (\<exists>r. s = p @ r)"
  using starts_with_append starts_with_decomp by blast

lemma starts_with_long: "length p \<le> length a \<Longrightarrow> starts_with (a @ b) p = starts_with a p"
  by (induction a p rule: starts_with.induct) auto


lemma close_no_straddle:
  "body \<noteq> [] \<Longrightarrow> length body < 4 \<Longrightarrow> \<not> starts_with (body @ fence_close @ rest) fence_close"
proof -
  assume "body \<noteq> []" "length body < 4"
  then have "0 < length body \<and> length body < 4" by simp
  then have "length body = 1 \<or> length body = 2 \<or> length body = 3"
    by arith
  then show ?thesis
    by (auto simp: length_Suc_conv fence_close_def newline_def numeral_2_eq_2 numeral_3_eq_3)
qed

lemma lazy_until_close_first:
  "\<not> str_includes body fence_close \<Longrightarrow>
     lazy_until_close (body @ fence_close @ rest) = Some body"
proof (induction body)
  case Nil
  have "starts_with (fence_close @ rest) fence_close" by (rule starts_with_append)
  moreover obtain c cs where "fence_close @ rest = c # cs" by (simp add: fence_close_def)
  ultimately show ?case by simp
next
  case (Cons c cs)
  from Cons.prems have ns: "\<not> starts_with (c # cs) fence_close" and ni: "\<not> str_includes cs fence_close"
    by auto
  have "\<not> starts_with ((c # cs) @ fence_close @ rest) fence_close"
  proof (cases "length (c # cs) < 4")
    case True
    then show ?thesis using close_no_straddle [of "c # cs" rest] by simp
  next
    case False
    then have "length fence_close \<le> length (c # cs)" by (simp add: fence_close_def)
    then show ?thesis using ns starts_with_long by blast
  qed
  then show ?case using Cons.IH [OF ni] by simp
qed

lemma open_no_straddle:
  "pre \<noteq> [] \<Longrightarrow> length pre < 8 \<Longrightarrow> \<not> starts_with (pre @ fence_open @ rest) fence_open"
proof -
  assume "pre \<noteq> []" "length pre < 8"
  then have "0 < length pre \<and> length pre < 8" by simp
  then have "length pre = 1 \<or> length pre = 2 \<or> length pre = 3 \<or> length pre = 4 \<or>
             length pre = 5 \<or> length pre = 6 \<or> length pre = 7"
    by arith
  then show ?thesis
    by (elim disjE)
       (auto simp: length_Suc_conv fence_open_def newline_def eval_nat_numeral)
qed

lemma match_json_block_first:
  assumes "\<not> str_includes pre fence_open" and "\<not> str_includes body fence_close"
  shows "match_json_block (pre @ fence_open @ body @ fence_close @ rest) = Some body"
  using assms(1)
proof (induction pre)
  case Nil
  obtain c cs where cc: "fence_open @ body @ fence_close @ rest = c # cs"
    by (simp add: fence_open_def)
  have sw: "starts_with (c # cs) fence_open"
    using starts_with_append [of fence_open "body @ fence_close @ rest"] cc by simp
  have dr: "drop (length fence_open) (c # cs) = body @ fence_close @ rest"
    using cc [symmetric] by simp
  have "match_json_block (c # cs) = Some body"
    using sw dr lazy_until_close_first [OF assms(2), of rest]
    by (simp del: starts_with.simps drop.simps)
  with cc show ?case by simp
next
  case (Cons c cs)
  from Cons.prems have ns: "\<not> starts_with (c # cs) fence_open" and ni: "\<not> str_includes cs fence_open"
    by auto
  let ?tail = "body @ fence_close @ rest"
  have "\<not> starts_with ((c # cs) @ fence_open @ ?tail) fence_open"
  proof (cases "length (c # cs) < 8")
    case True
    then show ?thesis using open_no_straddle [of "c # cs" ?tail] by simp
  next
    case False
    then have "length fence_open \<le> length (c # cs)" by (simp add: fence_open_def)
    then show ?thesis using ns starts_with_long by blast
  qed
  then show ?case using Cons.IH [OF ni] by simp
qed



subsection \<open>findIndex\<close>

lemma findIndex_ge_m1: "findIndex xs p \<ge> -1"
  by (induction xs) (auto simp: Let_def)

lemma findIndex_none: "\<forall>x\<in>set xs. \<not> p x \<Longrightarrow> findIndex xs p = -1"
  by (induction xs) (auto simp: Let_def)

lemma findIndex_some:
  "\<exists>x\<in>set xs. p x \<Longrightarrow>
     0 \<le> findIndex xs p \<and> nat (findIndex xs p) < length xs \<and> p (xs ! nat (findIndex xs p)) \<and>
     (\<forall>j < nat (findIndex xs p). \<not> p (xs ! j))"
proof (induction xs)
  case Nil
  then show ?case by simp
next
  case (Cons x xs)
  show ?case
  proof (cases "p x")
    case True
    then show ?thesis by simp
  next
    case False
    with Cons.prems have ex: "\<exists>x\<in>set xs. p x" by simp
    note ih = Cons.IH [OF ex]
    from ih have nn: "\<not> findIndex xs p < 0" by simp
    have eq: "nat (findIndex xs p + 1) = Suc (nat (findIndex xs p))" using ih by linarith
    show ?thesis using False ih nn
      by (auto simp: Let_def eq nth_Cons less_Suc_eq_0_disj split: nat.splits)
  qed
qed

subsection \<open>The activity log and the approval handler\<close>

lemma onAddLog_frame [simp]:
  "project (onAddLog e a m t s) = project s"
  "messages (onAddLog e a m t s) = messages s"
  "inputValue (onAddLog e a m t s) = inputValue s"
  "isProcessing (onAddLog e a m t s) = isProcessing s"
  "aiMode (onAddLog e a m t s) = aiMode s"
  "pendingProposal (onAddLog e a m t s) = pendingProposal s"
  "validationReport (onAddLog e a m t s) = validationReport s"
  "researchSources (onAddLog e a m t s) = researchSources s"
  "calls (onAddLog e a m t s) = calls s"
  by (simp_all add: onAddLog_def Math_random_toString_def Date_now_def)

lemma onAddLog_activity [simp]:
  "activity (onAddLog e a m t s) = activity s @
     [\<lparr>log_id = random_src e (randoms_drawn s), timestamp = now_src e (clock_reads s),
       agent = a, message = m, type = t\<rparr>]"
  by (simp add: onAddLog_def Math_random_toString_def Date_now_def)

lemma approveProposal_files:
  assumes "pendingProposal s = Some p" and "fileName p = Some (JStr fn)"
  shows "\<exists>s'. approveProposal e s = Inr s' \<and>
           files (project s') =
             (if findIndex (files (project s)) (\<lambda>f. name f = fn) \<ge> 0
              then (files (project s))
                     [nat (findIndex (files (project s)) (\<lambda>f. name f = fn)) := written_file fn p]
              else files (project s) @ [written_file fn p])"
  using assms
  by (simp add: approveProposal_def Let_def written_file_def Math_random_toString_def
      split: prod.splits)

lemma discardProposal_frame:
  "pendingProposal (discardProposal s) = None"
  "validationReport (discardProposal s) = validationReport s"
  "project (discardProposal s) = project s"
  "messages (discardProposal s) = messages s"
  "activity (discardProposal s) = activity s"
  by (simp_all add: discardProposal_def)

subsection \<open>The gateway\<close>

lemma generateContent_frame [simp]:
  "fst (generateContent e g r s) = backend e (length (calls s)) r"
  "snd (generateContent e g r s) = s\<lparr>calls := calls s @ [(g, r)]\<rparr>"
  by (simp_all add: generateContent_def)

lemma conduct_calls:
  "calls (snd (conduct e prompt context m config s)) =
     calls s @ [(op_conduct, conduct_request prompt context m config)]"
  by (simp add: conduct_def Let_def generateContent_def split: sum.splits)

lemma conductor_errors_simps [simp]:
  "conductor_errors [] = []"
  "conductor_errors (xs @ ys) = conductor_errors xs @ conductor_errors ys"
  "conductor_errors (l # ls) =
     (if agent l = Conductor \<and> type l = error then l # conductor_errors ls
      else conductor_errors ls)"
  by (simp_all add: conductor_errors_def)

lemma begin_turn_frame [simp]:
  "project (begin_turn e s) = project s"
  "activity (begin_turn e s) = activity s"
  "calls (begin_turn e s) = calls s"
  "pendingProposal (begin_turn e s) = pendingProposal s"
  "aiMode (begin_turn e s) = aiMode s"
  "researchSources (begin_turn e s) = researchSources s"
  "validationReport (begin_turn e s) = None"
  "isProcessing (begin_turn e s) = True"
  "messages (begin_turn e s) = messages s @
     [\<lparr>msg_id = random_src e (randoms_drawn s), msg_role = user,
       msg_content = inputValue s, pendingChange = None\<rparr>]"
  by (simp_all add: begin_turn_def Math_random_toString_def Let_def)

lemma research_frame [simp]:
  "project (snd (research e q config s)) = project s"
  "messages (snd (research e q config s)) = messages s"
  "pendingProposal (snd (research e q config s)) = pendingProposal s"
  "validationReport (snd (research e q config s)) = validationReport s"
  "researchSources (snd (research e q config s)) = researchSources s"
  "isProcessing (snd (research e q config s)) = isProcessing s"
  "aiMode (snd (research e q config s)) = aiMode s"
  "calls (snd (research e q config s)) = calls s @ [(op_research, research_request q config)]"
  by (simp_all add: research_def Let_def generateContent_def split: sum.splits)

lemma research_activity:
  "\<exists>new. activity (snd (research e q config s)) = activity s @ new \<and> conductor_errors new = []"
  by (simp add: research_def Let_def generateContent_def split: sum.splits)

lemma research_degraded:
  "backend e (length (calls s)) (research_request q config) = Inl err \<Longrightarrow>
     fst (research e q config s) = \<lparr>res_text = Some research_apology, sources = []\<rparr>"
  by (simp add: research_def Let_def generateContent_def research_apology_def)

lemma validateCode_frame [simp]:
  "project (snd (validateCode e c r config s)) = project s"
  "messages (snd (validateCode e c r config s)) = messages s"
  "pendingProposal (snd (validateCode e c r config s)) = pendingProposal s"
  "validationReport (snd (validateCode e c r config s)) = validationReport s"
  "researchSources (snd (validateCode e c r config s)) = researchSources s"
  "isProcessing (snd (validateCode e c r config s)) = isProcessing s"
  "calls (snd (validateCode e c r config s)) =
     (case validate_contents e c r of
        Inl err \<Rightarrow> calls s
      | Inr t \<Rightarrow> calls s @ [(op_validateCode, validate_request e c r config)])"
  by (simp_all add: validateCode_def Let_def generateContent_def split: sum.splits)

lemma validateCode_activity:
  "\<exists>new. activity (snd (validateCode e c r config s)) = activity s @ new \<and>
      conductor_errors new = []"
  by (simp add: validateCode_def Let_def generateContent_def split: sum.splits)

lemma validateCode_degraded:
  "backend e (length (calls s)) (validate_request e c r config) = Inl err \<Longrightarrow>
     fst (validateCode e c r config s) = Some validation_timed_out"
  by (simp add: validateCode_def Let_def generateContent_def validation_timed_out_def
      split: sum.splits)

lemma conduct_frame [simp]:
  "project (snd (conduct e p c m config s)) = project s"
  "messages (snd (conduct e p c m config s)) = messages s"
  "pendingProposal (snd (conduct e p c m config s)) = pendingProposal s"
  "validationReport (snd (conduct e p c m config s)) = validationReport s"
  "researchSources (snd (conduct e p c m config s)) = researchSources s"
  "isProcessing (snd (conduct e p c m config s)) = isProcessing s"
  "calls (snd (conduct e p c m config s)) = calls s @ [(op_conduct, conduct_request p c m config)]"
  by (simp_all add: conduct_def Let_def generateContent_def split: sum.splits)

lemma conduct_outcome:
  "fst (conduct e p c m config s) =
     (case backend e (length (calls s)) (conduct_request p c m config) of
        Inl err \<Rightarrow> Inl err
      | Inr resp \<Rightarrow> Inr (resp_text resp))"
  by (simp add: conduct_def Let_def generateContent_def split: sum.splits)

lemma conduct_failure_activity:
  "fst (conduct e p c m config s) = Inl err \<Longrightarrow>
     \<exists>l1 l2. activity (snd (conduct e p c m config s)) = activity s @ [l1, l2] \<and>
       agent l1 = Conductor \<and> type l1 = info \<and>
       agent l2 = Conductor \<and> type l2 = error \<and>
       message l2 = ''API Exception: '' @ error_message err"
  by (cases "backend e (length (calls s)) (conduct_request p c m config)")
     (simp_all add: conduct_def Let_def generateContent_def)

lemma conduct_success_activity:
  "fst (conduct e p c m config s) = Inr response \<Longrightarrow>
     \<exists>l1. activity (snd (conduct e p c m config s)) = activity s @ [l1] \<and>
       agent l1 = Conductor \<and> type l1 = info"
  by (cases "backend e (length (calls s)) (conduct_request p c m config)")
     (simp_all add: conduct_def Let_def generateContent_def)

lemma research_step_frame [simp]:
  "project (snd (research_step e config i s)) = project s"
  "messages (snd (research_step e config i s)) = messages s"
  "pendingProposal (snd (research_step e config i s)) = pendingProposal s"
  "validationReport (snd (research_step e config i s)) = validationReport s"
  "isProcessing (snd (research_step e config i s)) = isProcessing s"
  "calls (snd (research_step e config i s)) =
     (if needsResearch i then calls s @ [(op_research, research_request i config)] else calls s)"
  by (simp_all add: research_step_def Let_def split: prod.splits)
     (metis research_frame snd_conv)+

subsection \<open>The parser\<close>



lemma parseProposal_block:
  "match_json_block t = Some body \<Longrightarrow>
     parseProposal e (Some t) = (case read_proposal e body of Inl err \<Rightarrow> None | Inr p \<Rightarrow> p)"
  by (simp add: parseProposal_def)

subsection \<open>The phases of a turn\<close>

lemma research_step_activity:
  "\<exists>new. activity (snd (research_step e config i s)) = activity s @ new \<and>
      conductor_errors new = []"
proof (cases "needsResearch i")
  case True
  obtain new where "activity (snd (research e i config s)) = activity s @ new"
    and "conductor_errors new = []"
    using research_activity by blast
  with True show ?thesis by (auto simp: research_step_def Let_def split: prod.splits)
next
  case False
  then show ?thesis by (simp add: research_step_def)
qed

lemma research_step_prompt:
  "fst (research_step e config i s) =
     (if needsResearch i
      then ''Research Findings:'' @ [newline] @
           template_str (res_text (fst (research e i config s))) @ [newline, newline] @
           ''Original Request: '' @ i
      else i)"
  by (simp add: research_step_def Let_def split: prod.splits)

lemma proposal_step_frame [simp]:
  "fst (proposal_step e config response s) = parseProposal e response"
  "project (snd (proposal_step e config response s)) = project s"
  "messages (snd (proposal_step e config response s)) = messages s"
  "pendingProposal (snd (proposal_step e config response s)) = pendingProposal s"
  "calls (snd (proposal_step e config response s)) =
     (case parseProposal e response of
        None \<Rightarrow> calls s
      | Some p \<Rightarrow>
          (case validate_contents e (prop_content p) (description p) of
             Inl err \<Rightarrow> calls s
           | Inr t \<Rightarrow> calls s @
               [(op_validateCode, validate_request e (prop_content p) (description p) config)]))"
  "validationReport (snd (proposal_step e config response s)) =
     (case parseProposal e response of
        None \<Rightarrow> validationReport s
      | Some p \<Rightarrow> Some (fst (validateCode e (prop_content p) (description p) config s)))"
  by (simp_all add: proposal_step_def Let_def split_beta split: option.splits)

lemma finish_turn_frame [simp]:
  "project (finish_turn e response proposal s) = project s"
  "activity (finish_turn e response proposal s) = activity s"
  "calls (finish_turn e response proposal s) = calls s"
  "validationReport (finish_turn e response proposal s) = validationReport s"
  "pendingProposal (finish_turn e response proposal s) =
     (case proposal of None \<Rightarrow> pendingProposal s | Some p \<Rightarrow> Some p)"
  "messages (finish_turn e response proposal s) = messages s @
     [\<lparr>msg_id = random_src e (randoms_drawn s), msg_role = assistant,
       msg_content = or_else response ''Cluster returned empty response.'',
       pendingChange = proposal\<rparr>]"
  by (simp_all add: finish_turn_def Math_random_toString_def Let_def split: option.splits)

lemma str_includes_head: "str_includes l (k # ks) \<Longrightarrow> k \<in> set l"
  by (induction l) auto

lemma toLowerCase_whitespace: "is_whitespace c \<Longrightarrow> toLowerCase c = c"
  unfolding is_whitespace_def by (elim disjE) (simp_all add: toLowerCase_def)

lemma trim_not_blank: "c \<in> set s \<Longrightarrow> \<not> is_whitespace c \<Longrightarrow> trim s \<noteq> []"
proof -
  assume c: "c \<in> set s" and nw: "\<not> is_whitespace c"
  have "set s = set (takeWhile is_whitespace s) \<union> set (dropWhile is_whitespace s)"
    by (metis set_append takeWhile_dropWhile_id)
  moreover have "c \<notin> set (takeWhile is_whitespace s)"
    using nw set_takeWhileD by metis
  ultimately have "c \<in> set (dropWhile is_whitespace s)" using c by blast
  then have "c \<in> set (rev (dropWhile is_whitespace s))" by simp
  with nw have "dropWhile is_whitespace (rev (dropWhile is_whitespace s)) \<noteq> []"
    by (auto simp: dropWhile_eq_Nil_conv)
  then show ?thesis by (simp add: trim_def)
qed

lemma needsResearch_not_blank: "needsResearch i \<Longrightarrow> trim i \<noteq> []"
proof -
  assume "needsResearch i"
  then have "\<exists>k \<in> set ''rsfdiw''. k \<in> set (map toLowerCase i)"
    unfolding needsResearch_def Let_def using str_includes_head by fastforce
  then obtain c where c: "c \<in> set i" and k: "toLowerCase c \<in> set ''rsfdiw''" by auto
  have "\<not> is_whitespace c"
  proof
    assume w: "is_whitespace c"
    then have "toLowerCase c = c" by (rule toLowerCase_whitespace)
    with k w show False by (auto simp: is_whitespace_def)
  qed
  with c show ?thesis by (rule trim_not_blank)
qed

lemma handleSendMessage_rejected:
  "trim (inputValue s) = [] \<or> isProcessing s \<Longrightarrow> handleSendMessage e config s = s"
  by (simp add: handleSendMessage_def)

lemma handleSendMessage_accepted:
  assumes "\<not> isProcessing s" and "trim (inputValue s) \<noteq> []"
    and "research_step e config (inputValue s) (begin_turn e s) = (prompt, s2)"
    and "conduct e prompt (filesContext (project s)) (aiMode s) config s2 = (r, s3)"
  shows "handleSendMessage e config s =
     (case r of
        Inr response \<Rightarrow>
          (finish_turn e response (parseProposal e response)
             (snd (proposal_step e config response s3)))\<lparr>isProcessing := False\<rparr>
      | Inl err \<Rightarrow>
          (onAddLog e Conductor (''Cluster Error: '' @ error_message err) error s3)
            \<lparr>isProcessing := False\<rparr>)"
  using assms
  by (cases r) (simp_all add: handleSendMessage_def Let_def split_beta)

lemma hello_facts:
  "\<not> isProcessing (view ''hello'' None None)"
  "inputValue (view ''hello'' None None) = ''hello''"
  "trim ''hello'' \<noteq> []"
  "\<not> needsResearch ''hello''"
  "activity (view ''hello'' None None) = []"
  "messages (view ''hello'' None None) = []"
  "pendingProposal (view ''hello'' None None) = None"
  "project (view ''hello'' None None) = two_files"
  "aiMode (view ''hello'' None None) = precision"
  "calls (view ''hello'' None None) = []"
  by (simp_all add: view_def trim_def is_whitespace_def needsResearch_def toLowerCase_def)

lemma handleSendMessage_project: "project (handleSendMessage e config s) = project s"
proof (cases "trim (inputValue s) = [] \<or> isProcessing s")
  case True
  then show ?thesis by (simp add: handleSendMessage_rejected)
next
  case False
  then have a: "\<not> isProcessing s" "trim (inputValue s) \<noteq> []" by simp_all
  obtain prompt s2 where rs: "research_step e config (inputValue s) (begin_turn e s) = (prompt, s2)"
    by (cases "research_step e config (inputValue s) (begin_turn e s)")
  obtain r s3 where cd: "conduct e prompt (filesContext (project s)) (aiMode s) config s2 = (r, s3)"
    by (cases "conduct e prompt (filesContext (project s)) (aiMode s) config s2")
  have s2: "s2 = snd (research_step e config (inputValue s) (begin_turn e s))" using rs by simp
  have s3: "s3 = snd (conduct e prompt (filesContext (project s)) (aiMode s) config s2)"
    using cd by simp
  have p3: "project s3 = project s" by (simp add: s3 s2)
  note eq = handleSendMessage_accepted [OF a rs cd]
  show ?thesis
  proof (cases r)
    case (Inl err)
    with eq p3 show ?thesis by simp
  next
    case (Inr response)
    with eq p3 show ?thesis by simp
  qed
qed

lemma handleSendMessage_calls:
  assumes "\<not> isProcessing s" and "trim (inputValue s) \<noteq> []"
    and "research_step e config (inputValue s) (begin_turn e s) = (prompt, s2)"
  shows "\<exists>rest. calls (handleSendMessage e config s) =
           calls s2 @
           (op_conduct, conduct_request prompt (filesContext (project s)) (aiMode s) config) # rest"
proof -
  let ?s' = "handleSendMessage e config s"
  let ?c = "conduct_request prompt (filesContext (project s)) (aiMode s) config"
  obtain r s3 where cd: "conduct e prompt (filesContext (project s)) (aiMode s) config s2 = (r, s3)"
    by (cases "conduct e prompt (filesContext (project s)) (aiMode s) config s2")
  have s3: "s3 = snd (conduct e prompt (filesContext (project s)) (aiMode s) config s2)"
    using cd by simp
  have c3: "calls s3 = calls s2 @ [(op_conduct, ?c)]" by (simp add: s3)
  note eq = handleSendMessage_accepted [OF assms cd]
  show ?thesis
  proof (cases r)
    case (Inl err)
    with eq c3 have "calls ?s' = calls s2 @ (op_conduct, ?c) # []" by simp
    then show ?thesis by (rule exI)
  next
    case (Inr response)
    show ?thesis
    proof (cases "parseProposal e response")
      case None
      with eq Inr c3 have "calls ?s' = calls s2 @ (op_conduct, ?c) # []" by simp
      then show ?thesis by (rule exI)
    next
      case (Some p)
      let ?v = "(op_validateCode, validate_request e (prop_content p) (description p) config)"
      show ?thesis
      proof (cases "validate_contents e (prop_content p) (description p)")
        case (Inl err)
        with eq Inr Some c3 have "calls ?s' = calls s2 @ (op_conduct, ?c) # []" by simp
        then show ?thesis by (rule exI)
      next
        case (Inr t)
        with eq \<open>r = Inr response\<close> Some c3
        have "calls ?s' = calls s2 @ (op_conduct, ?c) # [?v]" by simp
        then show ?thesis by (rule exI)
      qed
    qed
  qed
qed

lemma handleSendMessage_pending:
  assumes "\<not> isProcessing s" and "trim (inputValue s) \<noteq> []"
    and "research_step e config (inputValue s) (begin_turn e s) = (prompt, s2)"
    and "conduct e prompt (filesContext (project s)) (aiMode s) config s2 = (Inr response, s3)"
  shows "pendingProposal (handleSendMessage e config s) =
           (case parseProposal e response of
              Some p \<Rightarrow> Some p
            | None \<Rightarrow> pendingProposal s)"
proof -
  have s2: "s2 = snd (research_step e config (inputValue s) (begin_turn e s))"
    using assms(3) by simp
  have s3: "s3 = snd (conduct e prompt (filesContext (project s)) (aiMode s) config s2)"
    using assms(4) by simp
  have p3: "pendingProposal s3 = pendingProposal s" by (simp add: s3 s2)
  show ?thesis
    using handleSendMessage_accepted [OF assms] p3 by (simp split: option.splits)
qed

subsection \<open>The concrete inputs\<close>

lemma question_facts:
  "\<not> isProcessing (view ''What is the capital of France?'' None None)"
  "inputValue (view ''What is the capital of France?'' None None) =
     ''What is the capital of France?''"
  "needsResearch ''What is the capital of France?''"
  "calls (view ''What is the capital of France?'' None None) = []"
  "project (view ''What is the capital of France?'' None None) = two_files"
  "aiMode (view ''What is the capital of France?'' None None) = precision"
  by (simp_all add: view_def needsResearch_def toLowerCase_def)

lemma export_facts:
  "\<not> isProcessing (view ''add an export'' pd rp)"
  "inputValue (view ''add an export'' pd rp) = ''add an export''"
  "trim ''add an export'' \<noteq> []"
  "\<not> needsResearch ''add an export''"
  "calls (view ''add an export'' pd rp) = []"
  "messages (view ''add an export'' pd rp) = []"
  "project (view ''add an export'' pd rp) = two_files"
  "aiMode (view ''add an export'' pd rp) = precision"
  "pendingProposal (view ''add an export'' pd rp) = pd"
  by (simp_all add: view_def trim_def is_whitespace_def needsResearch_def toLowerCase_def)

lemma parse_reply_with_block:
  "parseProposal (env_with b) (Some reply_with_block) = Some utils_proposal"
proof -
  have a1: "\<not> str_includes (''Here is the change.'' @ [newline]) fence_open"
    by (simp add: fence_open_def newline_def)
  have a2: "\<not> str_includes block_body fence_close"
    by (simp add: block_body_def fence_close_def newline_def)
  have "match_json_block ((''Here is the change.'' @ [newline]) @ fence_open @ block_body @
          fence_close @ []) = Some block_body"
    by (rule match_json_block_first [OF a1 a2])
  then have "match_json_block reply_with_block = Some block_body"
    by (simp add: reply_with_block_def)
  then show ?thesis
    by (simp add: parseProposal_block read_proposal_def env_with_def block_object_def
        utils_proposal_def)
qed

lemma parse_bare_reply:
  "parseProposal (env_with b) (Some bare_reply) = Some bare_proposal"
proof -
  have a1: "\<not> str_includes [] fence_open"
    by (simp add: fence_open_def)
  have a2: "\<not> str_includes bare_body fence_close"
    by (simp add: bare_body_def fence_close_def newline_def)
  have "match_json_block ([] @ fence_open @ bare_body @ fence_close @ []) = Some bare_body"
    by (rule match_json_block_first [OF a1 a2])
  then have "match_json_block bare_reply = Some bare_body"
    by (simp add: bare_reply_def)
  then show ?thesis
    by (simp add: parseProposal_block read_proposal_def env_with_def block_body_def
        bare_body_def bare_proposal_def)
qed

lemma bare_turn:
  "pendingProposal (handleSendMessage (env_with (replying bare_reply)) initial_config
      (view ''add an export'' None None)) = Some bare_proposal"
proof -
  let ?e = "env_with (replying bare_reply)"
  let ?s = "view ''add an export'' None None"
  have h1: "\<not> isProcessing ?s" and h2: "trim (inputValue ?s) \<noteq> []"
    by (simp_all add: export_facts)
  have h3: "research_step ?e initial_config (inputValue ?s) (begin_turn ?e ?s) =
              (''add an export'', begin_turn ?e ?s)"
    by (simp add: research_step_def export_facts)
  have f: "fst (conduct ?e ''add an export'' (filesContext two_files) precision initial_config
                 (begin_turn ?e ?s)) = Inr (Some bare_reply)"
    by (simp add: conduct_outcome env_with_def replying_def)
  then obtain s3 where h4: "conduct ?e ''add an export'' (filesContext (project ?s)) (aiMode ?s)
                 initial_config (begin_turn ?e ?s) = (Inr (Some bare_reply), s3)"
    by (cases "conduct ?e ''add an export'' (filesContext two_files) precision initial_config
                 (begin_turn ?e ?s)") (simp add: export_facts)
  show ?thesis
    using handleSendMessage_pending [OF h1 h2 h3 h4] by (simp add: parse_bare_reply)
qed

section \<open>Properties\<close>

subsection \<open>Approving a proposal writes one file\<close>

text \<open>
  C1, as the code has it. Let a proposal be pending whose file name is a string \<open>fn\<close>.
  Then \<^verbatim>\<open>approveProposal\<close> succeeds, and: when a file of the project is named \<open>fn\<close>, the
  first such file (at index \<open>i\<close>) is written in place with the content of the proposal,
  the number of files is the same, and the file at every other index is the one that was
  there; when no file is named \<open>fn\<close>, the new list of files is the old one followed by
  exactly one file, named \<open>fn\<close> and holding the content of the proposal.
\<close>

theorem approveProposal_upsert:
  assumes "pendingProposal s = Some p" and "fileName p = Some (JStr fn)"
  shows "\<exists>s'. approveProposal e s = Inr s' \<and>
           (fn \<in> name ` set (files (project s)) \<longrightarrow>
              (\<exists>i < length (files (project s)).
                  name (files (project s) ! i) = fn \<and>
                  (\<forall>j < i. name (files (project s) ! j) \<noteq> fn) \<and>
                  length (files (project s')) = length (files (project s)) \<and>
                  name (files (project s') ! i) = fn \<and>
                  content (files (project s') ! i) = prop_content p \<and>
                  (\<forall>j < length (files (project s)). j \<noteq> i \<longrightarrow>
                       files (project s') ! j = files (project s) ! j))) \<and>
           (fn \<notin> name ` set (files (project s)) \<longrightarrow>
              files (project s') = files (project s) @ [written_file fn p] \<and>
              name (written_file fn p) = fn \<and> content (written_file fn p) = prop_content p)"
proof -
  let ?fs = "files (project s)"
  let ?i = "findIndex ?fs (\<lambda>f. name f = fn)"
  obtain s' where ap: "approveProposal e s = Inr s'"
    and fs': "files (project s') =
                (if ?i \<ge> 0 then ?fs[nat ?i := written_file fn p] else ?fs @ [written_file fn p])"
    using approveProposal_files [OF assms] by blast
  have hit: "fn \<in> name ` set ?fs \<Longrightarrow>
      (\<exists>i < length ?fs. name (?fs ! i) = fn \<and> (\<forall>j < i. name (?fs ! j) \<noteq> fn) \<and>
          length (files (project s')) = length ?fs \<and> name (files (project s') ! i) = fn \<and>
          content (files (project s') ! i) = prop_content p \<and>
          (\<forall>j < length ?fs. j \<noteq> i \<longrightarrow> files (project s') ! j = ?fs ! j))"
  proof -
    assume "fn \<in> name ` set ?fs"
    then have "\<exists>x\<in>set ?fs. name x = fn" by auto
    from findIndex_some [of ?fs "\<lambda>f. name f = fn", OF this]
    have 1: "0 \<le> ?i" and 2: "nat ?i < length ?fs" and 3: "name (?fs ! nat ?i) = fn"
      and 4: "\<forall>j < nat ?i. name (?fs ! j) \<noteq> fn" by auto
    from 1 fs' have eq: "files (project s') = ?fs[nat ?i := written_file fn p]" by simp
    show ?thesis
      by (rule exI [of _ "nat ?i"]) (use 2 3 4 in \<open>simp add: eq written_file_def\<close>)
  qed
  have miss: "fn \<notin> name ` set ?fs \<Longrightarrow> files (project s') = ?fs @ [written_file fn p]"
  proof -
    assume "fn \<notin> name ` set ?fs"
    then have "\<forall>x\<in>set ?fs. \<not> name x = fn" by auto
    from findIndex_none [of ?fs "\<lambda>f. name f = fn", OF this] fs' show ?thesis by simp
  qed
  show ?thesis using ap hit miss by (simp add: written_file_def)
qed

text \<open>
  The claim speaks of every pending proposal. The parser copies the fields of a block
  unchecked, so one turn whose response holds the block \<^verbatim>\<open>{"action":"propose_code"}\<close> leaves
  a proposal pending whose file name is \<^verbatim>\<open>undefined\<close>. That name equals the name of no
  file, and approving the proposal appends nothing: \<^verbatim>\<open>split\<close> throws a \<^verbatim>\<open>TypeError\<close> and the
  project keeps its two files.
\<close>

theorem approveProposal_counterexample:
  "pendingProposal (handleSendMessage (env_with (replying bare_reply)) initial_config
      (view ''add an export'' None None)) = Some bare_proposal \<and>
   fileName bare_proposal = None \<and>
   approveProposal (env_with (replying bare_reply))
     (handleSendMessage (env_with (replying bare_reply)) initial_config
        (view ''add an export'' None None)) = Inl TypeError \<and>
   approved_files (env_with (replying bare_reply))
     (handleSendMessage (env_with (replying bare_reply)) initial_config
        (view ''add an export'' None None)) = files two_files \<and>
   length (files two_files) = 2"
proof -
  let ?e = "env_with (replying bare_reply)"
  let ?s' = "handleSendMessage ?e initial_config (view ''add an export'' None None)"
  have p: "pendingProposal ?s' = Some bare_proposal" by (rule bare_turn)
  have f: "fileName bare_proposal = None" by (simp add: bare_proposal_def)
  have a: "approveProposal ?e ?s' = Inl TypeError"
    by (simp add: approveProposal_def p f Let_def)
  have pr: "project ?s' = two_files"
    by (simp add: handleSendMessage_project export_facts)
  have af: "approved_files ?e ?s' = files two_files"
    by (simp add: approved_files_def a pr)
  have l: "length (files two_files) = 2" by (simp add: two_files_def)
  show ?thesis by (intro conjI p f a af l)
qed

text \<open>
  The theorem at the project with the files \<^verbatim>\<open>main.ts\<close> and \<^verbatim>\<open>utils.ts\<close>: approving a
  proposal for \<^verbatim>\<open>utils.ts\<close> rewrites the second file and keeps the first, approving one
  for \<^verbatim>\<open>README\<close> appends a third file.
\<close>

theorem approveProposal_upsert_witness:
  "pendingProposal (view [] (Some utils_proposal) (Some (Some ''fine''))) = Some utils_proposal \<and>
   fileName utils_proposal = Some (JStr ''utils.ts'') \<and>
   pendingProposal (view [] (Some readme_proposal) None) = Some readme_proposal \<and>
   fileName readme_proposal = Some (JStr ''README'') \<and>
   (\<exists>s'. approveProposal (env_with offline)
            (view [] (Some utils_proposal) (Some (Some ''fine''))) = Inr s' \<and>
      length (files (project s')) = 2 \<and>
      files (project s') ! 0 = files two_files ! 0 \<and>
      name (files (project s') ! 1) = ''utils.ts'' \<and>
      content (files (project s') ! 1) = Some (JStr ''export const b = 3'')) \<and>
   (\<exists>s'. approveProposal (env_with offline) (view [] (Some readme_proposal) None) = Inr s' \<and>
      files (project s') = files two_files @ [written_file ''README'' readme_proposal])"
proof -
  let ?u = "view [] (Some utils_proposal) (Some (Some ''fine''))"
  let ?r = "view [] (Some readme_proposal) None"
  have a: "pendingProposal ?u = Some utils_proposal"
    and b: "fileName utils_proposal = Some (JStr ''utils.ts'')"
    and c: "pendingProposal ?r = Some readme_proposal"
    and d: "fileName readme_proposal = Some (JStr ''README'')"
    by (simp_all add: view_def utils_proposal_def readme_proposal_def)
  have fu: "files (project ?u) = files two_files" and fr: "files (project ?r) = files two_files"
    by (simp_all add: view_def)
  have names: "name (files two_files ! 0) = ''main.ts''" "name (files two_files ! 1) = ''utils.ts''"
    "length (files two_files) = 2"
    "''utils.ts'' \<in> name ` set (files two_files)" "''README'' \<notin> name ` set (files two_files)"
    by (simp_all add: two_files_def)
  from approveProposal_upsert [OF a b, of "env_with offline"] names
  obtain s' i where 1: "approveProposal (env_with offline) ?u = Inr s'"
    and 2: "i < 2" "name (files two_files ! i) = ''utils.ts''"
      "length (files (project s')) = 2" "name (files (project s') ! i) = ''utils.ts''"
      "content (files (project s') ! i) = prop_content utils_proposal"
      "\<forall>j < 2. j \<noteq> i \<longrightarrow> files (project s') ! j = files two_files ! j"
    unfolding fu by auto
  from 2(1,2) names have i: "i = 1" by (cases "i = 0") auto
  have first: "\<exists>s'. approveProposal (env_with offline) ?u = Inr s' \<and>
      length (files (project s')) = 2 \<and>
      files (project s') ! 0 = files two_files ! 0 \<and>
      name (files (project s') ! 1) = ''utils.ts'' \<and>
      content (files (project s') ! 1) = Some (JStr ''export const b = 3'')"
    using 1 2 i by (auto simp: utils_proposal_def)
  from approveProposal_upsert [OF c d, of "env_with offline"] names
  have second: "\<exists>s'. approveProposal (env_with offline) ?r = Inr s' \<and>
      files (project s') = files two_files @ [written_file ''README'' readme_proposal]"
    unfolding fr by auto
  show ?thesis using a b c d first second by blast
qed

subsection \<open>A failed conversation call\<close>

text \<open>
  C2, as the code has it. Take a turn that is accepted (nothing in flight, input not
  blank) and whose call of \<^verbatim>\<open>conduct\<close> throws the error \<open>err\<close>. Then the message list
  grows by the user message only (no assistant message), the pending proposal is what it
  was, and among the log entries the turn appends exactly two are error entries of the
  agent "Conductor": first \<^verbatim>\<open>API Exception: <message>\<close>, logged by \<^verbatim>\<open>conduct\<close> before
  it rethrows, then \<^verbatim>\<open>Cluster Error: <message>\<close>, logged by the handler that catches
  the error.
\<close>

theorem conduct_failure_aborts_turn:
  assumes "\<not> isProcessing s" and "trim (inputValue s) \<noteq> []"
    and "research_step e config (inputValue s) (begin_turn e s) = (prompt, s2)"
    and "conduct e prompt (filesContext (project s)) (aiMode s) config s2 = (Inl err, s3)"
  shows "messages (handleSendMessage e config s) =
           messages s @ [\<lparr>msg_id = random_src e (randoms_drawn s), msg_role = user,
                          msg_content = inputValue s, pendingChange = None\<rparr>] \<and>
         pendingProposal (handleSendMessage e config s) = pendingProposal s \<and>
         (\<exists>new l1 l2.
             activity (handleSendMessage e config s) = activity s @ new \<and>
             conductor_errors new = [l1, l2] \<and>
             message l1 = ''API Exception: '' @ error_message err \<and>
             message l2 = ''Cluster Error: '' @ error_message err)"
proof -
  let ?s' = "handleSendMessage e config s"
  have s': "?s' = (onAddLog e Conductor (''Cluster Error: '' @ error_message err) error s3)
                    \<lparr>isProcessing := False\<rparr>"
    using handleSendMessage_accepted [OF assms] by simp
  have s2: "s2 = snd (research_step e config (inputValue s) (begin_turn e s))"
    using assms(3) by simp
  have s3: "s3 = snd (conduct e prompt (filesContext (project s)) (aiMode s) config s2)"
    and f3: "fst (conduct e prompt (filesContext (project s)) (aiMode s) config s2) = Inl err"
    using assms(4) by simp_all
  have m: "messages ?s' = messages s @ [\<lparr>msg_id = random_src e (randoms_drawn s), msg_role = user,
                          msg_content = inputValue s, pendingChange = None\<rparr>]"
    by (simp add: s' s3 s2)
  have p: "pendingProposal ?s' = pendingProposal s"
    by (simp add: s' s3 s2)
  obtain new0 where a2: "activity s2 = activity s @ new0" and c0: "conductor_errors new0 = []"
    using research_step_activity [of e config "inputValue s" "begin_turn e s"] s2 by auto
  obtain l0 l1 where a3: "activity s3 = activity s2 @ [l0, l1]"
    and l0: "agent l0 = Conductor" "type l0 = info"
    and l1: "agent l1 = Conductor" "type l1 = error"
      "message l1 = ''API Exception: '' @ error_message err"
    using conduct_failure_activity [OF f3] s3 by auto
  define l2 where "l2 = \<lparr>log_id = random_src e (randoms_drawn s3),
      timestamp = now_src e (clock_reads s3), agent = Conductor,
      message = ''Cluster Error: '' @ error_message err, type = error\<rparr>"
  have a': "activity ?s' = activity s @ (new0 @ [l0, l1, l2])"
    by (simp add: s' a3 a2 l2_def)
  have ce: "conductor_errors (new0 @ [l0, l1, l2]) = [l1, l2]"
    using c0 l0 l1 by (simp add: l2_def)
  have "message l2 = ''Cluster Error: '' @ error_message err" by (simp add: l2_def)
  with a' ce l1(3) have "\<exists>new l1 l2.
             activity ?s' = activity s @ new \<and>
             conductor_errors new = [l1, l2] \<and>
             message l1 = ''API Exception: '' @ error_message err \<and>
             message l2 = ''Cluster Error: '' @ error_message err" by blast
  with m p show ?thesis by blast
qed

text \<open>
  The claim asks for exactly one such entry. With every request failing and the input
  \<^verbatim>\<open>hello\<close> (no research step), \<^verbatim>\<open>conduct\<close> throws and the log, empty before the turn,
  holds two error entries of the agent "Conductor" after it.
\<close>

theorem conduct_failure_counterexample:
  "fst (conduct (env_with offline) ''hello'' (filesContext two_files) precision initial_config
         (begin_turn (env_with offline) (view ''hello'' None None))) =
     Inl (ApiError ''Failed to fetch'') \<and>
   activity (view ''hello'' None None) = [] \<and>
   map message (conductor_errors
     (activity (handleSendMessage (env_with offline) initial_config (view ''hello'' None None)))) =
     [''API Exception: Failed to fetch'', ''Cluster Error: Failed to fetch'']"
proof -
  let ?e = "env_with offline" and ?s = "view ''hello'' None None"
  have rs: "research_step ?e initial_config (inputValue ?s) (begin_turn ?e ?s) =
              (''hello'', begin_turn ?e ?s)"
    by (simp add: research_step_def hello_facts)
  have f: "fst (conduct ?e ''hello'' (filesContext two_files) precision initial_config
                 (begin_turn ?e ?s)) = Inl (ApiError ''Failed to fetch'')"
    by (simp add: conduct_outcome env_with_def offline_def)
  obtain s3 where c: "conduct ?e ''hello'' (filesContext (project ?s)) (aiMode ?s) initial_config
                 (begin_turn ?e ?s) = (Inl (ApiError ''Failed to fetch''), s3)"
    using f by (cases "conduct ?e ''hello'' (filesContext two_files) precision initial_config
                 (begin_turn ?e ?s)") (simp add: hello_facts)
  have s3: "s3 = snd (conduct ?e ''hello'' (filesContext two_files) precision initial_config
                 (begin_turn ?e ?s))"
    using c by (simp add: hello_facts)
  obtain l0 l1 where a3: "activity s3 = activity (begin_turn ?e ?s) @ [l0, l1]"
    and l: "agent l0 = Conductor" "type l0 = info" "agent l1 = Conductor" "type l1 = error"
      "message l1 = ''API Exception: '' @ error_message (ApiError ''Failed to fetch'')"
    using conduct_failure_activity [OF f] s3 by auto
  have "handleSendMessage ?e initial_config ?s =
          (onAddLog ?e Conductor (''Cluster Error: '' @ error_message (ApiError ''Failed to fetch''))
             error s3)\<lparr>isProcessing := False\<rparr>"
    using handleSendMessage_accepted [OF _ _ rs c] by (simp add: hello_facts)
  then have "map message (conductor_errors (activity (handleSendMessage ?e initial_config ?s))) =
     [''API Exception: Failed to fetch'', ''Cluster Error: Failed to fetch'']"
    using a3 l by (simp add: hello_facts)
  with f show ?thesis by (simp add: hello_facts)
qed

text \<open>The theorem at that input: its hypotheses hold there, and so does its conclusion.\<close>

theorem conduct_failure_aborts_turn_witness:
  "\<not> isProcessing (view ''hello'' None None) \<and>
   trim (inputValue (view ''hello'' None None)) \<noteq> [] \<and>
   fst (conduct (env_with offline) ''hello'' (filesContext two_files) precision initial_config
         (begin_turn (env_with offline) (view ''hello'' None None))) =
     Inl (ApiError ''Failed to fetch'') \<and>
   messages (handleSendMessage (env_with offline) initial_config (view ''hello'' None None)) =
     [\<lparr>msg_id = ''0.7'', msg_role = user, msg_content = ''hello'', pendingChange = None\<rparr>] \<and>
   pendingProposal (handleSendMessage (env_with offline) initial_config (view ''hello'' None None)) =
     None \<and>
   (\<exists>new l1 l2.
       activity (handleSendMessage (env_with offline) initial_config (view ''hello'' None None)) =
         new \<and>
       conductor_errors new = [l1, l2] \<and>
       message l1 = ''API Exception: Failed to fetch'' \<and>
       message l2 = ''Cluster Error: Failed to fetch'')"
proof -
  let ?e = "env_with offline" and ?s = "view ''hello'' None None"
  have h1: "\<not> isProcessing ?s" and h2: "trim (inputValue ?s) \<noteq> []"
    by (simp_all add: hello_facts)
  have h3: "research_step ?e initial_config (inputValue ?s) (begin_turn ?e ?s) =
              (''hello'', begin_turn ?e ?s)"
    by (simp add: research_step_def hello_facts)
  have f: "fst (conduct ?e ''hello'' (filesContext two_files) precision initial_config
                 (begin_turn ?e ?s)) = Inl (ApiError ''Failed to fetch'')"
    by (simp add: conduct_outcome env_with_def offline_def)
  then obtain s3 where h4: "conduct ?e ''hello'' (filesContext (project ?s)) (aiMode ?s)
                 initial_config (begin_turn ?e ?s) = (Inl (ApiError ''Failed to fetch''), s3)"
    by (cases "conduct ?e ''hello'' (filesContext two_files) precision initial_config
                 (begin_turn ?e ?s)") (simp add: hello_facts)
  have r: "random_src ?e (randoms_drawn ?s) = ''0.7''"
    by (simp add: env_with_def view_def)
  show ?thesis
    using conduct_failure_aborts_turn [OF h1 h2 h3 h4] h1 h2 f
    by (simp add: hello_facts r)
qed

subsection \<open>Discarding a proposal\<close>

text \<open>
  C3. Both discard buttons clear the pending proposal, and neither clears the validation
  report, which \<^verbatim>\<open>approveProposal\<close> does clear: in a view with a pending proposal and the
  report \<^verbatim>\<open>fine\<close>, discarding leaves no pending proposal and the report \<^verbatim>\<open>fine\<close>. (That
  nothing else changes is \<open>discardProposal_frame\<close>.)
\<close>

theorem discard_keeps_validation_report:
  "pendingProposal (view [] (Some utils_proposal) (Some (Some ''fine''))) = Some utils_proposal \<and>
   validationReport (view [] (Some utils_proposal) (Some (Some ''fine''))) = Some (Some ''fine'') \<and>
   pendingProposal (discardProposal (view [] (Some utils_proposal) (Some (Some ''fine'')))) = None \<and>
   validationReport (discardProposal (view [] (Some utils_proposal) (Some (Some ''fine'')))) =
     Some (Some ''fine'')"
  by (simp add: discardProposal_def view_def)

subsection \<open>The proposal parser\<close>




subsection \<open>Research precedes the conversation call\<close>

text \<open>
  C5. When nothing is in flight and the input matches the keyword heuristic (such an
  input is never blank), the requests the turn sends are: one by \<^verbatim>\<open>research\<close>, for that
  input, then one by \<^verbatim>\<open>conduct\<close>, then at most one by \<^verbatim>\<open>validateCode\<close>, so exactly one
  research call, before the only conversation call. When the input does not match the
  heuristic, the turn sends no request by \<^verbatim>\<open>research\<close>: it sends nothing, or one request
  by \<^verbatim>\<open>conduct\<close>, followed or not by one by \<^verbatim>\<open>validateCode\<close>.
\<close>

theorem research_call_order:
  "(\<not> isProcessing s \<and> needsResearch (inputValue s) \<longrightarrow>
      (\<exists>c rest.
          calls (handleSendMessage e config s) =
            calls s @ (op_research, research_request (inputValue s) config) # (op_conduct, c) # rest \<and>
          (map fst rest = [] \<or> map fst rest = [op_validateCode]))) \<and>
   (\<not> needsResearch (inputValue s) \<longrightarrow>
      (\<exists>new. calls (handleSendMessage e config s) = calls s @ new \<and>
          (map fst new = [] \<or> map fst new = [op_conduct] \<or>
           map fst new = [op_conduct, op_validateCode])))"
proof -
  let ?s' = "handleSendMessage e config s"
  let ?i = "inputValue s"
  obtain prompt s2 where rs: "research_step e config ?i (begin_turn e s) = (prompt, s2)"
    by (cases "research_step e config ?i (begin_turn e s)") 
  obtain r s3 where cd: "conduct e prompt (filesContext (project s)) (aiMode s) config s2 = (r, s3)"
    by (cases "conduct e prompt (filesContext (project s)) (aiMode s) config s2")
  let ?c = "conduct_request prompt (filesContext (project s)) (aiMode s) config"
  have s2: "s2 = snd (research_step e config ?i (begin_turn e s))" using rs by simp
  have s3: "s3 = snd (conduct e prompt (filesContext (project s)) (aiMode s) config s2)"
    using cd by simp
  have c2: "calls s2 = (if needsResearch ?i
                        then calls s @ [(op_research, research_request ?i config)] else calls s)"
    by (simp add: s2)
  have c3: "calls s3 = calls s2 @ [(op_conduct, ?c)]" by (simp add: s3)
  have acc: "\<not> isProcessing s \<Longrightarrow> trim ?i \<noteq> [] \<Longrightarrow>
      \<exists>rest. calls ?s' = calls s3 @ rest \<and> (map fst rest = [] \<or> map fst rest = [op_validateCode])"
  proof -
    assume a: "\<not> isProcessing s" "trim ?i \<noteq> []"
    note eq = handleSendMessage_accepted [OF a rs cd]
    show ?thesis
    proof (cases r)
      case (Inl err)
      with eq have "calls ?s' = calls s3 @ []" by simp
      then show ?thesis by (intro exI [of _ "[]"]) simp
    next
      case (Inr response)
      show ?thesis
      proof (cases "parseProposal e response")
        case None
        with eq Inr have "calls ?s' = calls s3 @ []" by simp
        then show ?thesis by (intro exI [of _ "[]"]) simp
      next
        case (Some p)
        let ?v = "(op_validateCode, validate_request e (prop_content p) (description p) config)"
        show ?thesis
        proof (cases "validate_contents e (prop_content p) (description p)")
          case (Inl err)
          with eq Inr Some have "calls ?s' = calls s3 @ []" by simp
          then show ?thesis by (intro exI [of _ "[]"]) simp
        next
          case (Inr t)
          with eq \<open>r = Inr response\<close> Some have "calls ?s' = calls s3 @ [?v]" by simp
          then show ?thesis by (intro exI [of _ "[?v]"]) simp
        qed
      qed
    qed
  qed
  have first: "\<not> isProcessing s \<and> needsResearch ?i \<longrightarrow>
      (\<exists>c rest. calls ?s' =
            calls s @ (op_research, research_request ?i config) # (op_conduct, c) # rest \<and>
          (map fst rest = [] \<or> map fst rest = [op_validateCode]))"
  proof
    assume a: "\<not> isProcessing s \<and> needsResearch ?i"
    then have np: "\<not> isProcessing s" and nr: "needsResearch ?i" by simp_all
    have tr: "trim ?i \<noteq> []" by (rule needsResearch_not_blank [OF nr])
    obtain rest where r1: "calls ?s' = calls s3 @ rest"
      and r2: "map fst rest = [] \<or> map fst rest = [op_validateCode]"
      using acc [OF np tr] by (elim exE conjE)
    from nr c2 have "calls s2 = calls s @ [(op_research, research_request ?i config)]" by simp
    with r1 c3 have r3: "calls ?s' =
        calls s @ (op_research, research_request ?i config) # (op_conduct, ?c) # rest"
      by simp
    show "\<exists>c rest. calls ?s' =
            calls s @ (op_research, research_request ?i config) # (op_conduct, c) # rest \<and>
          (map fst rest = [] \<or> map fst rest = [op_validateCode])"
      by (intro exI [of _ ?c] exI [of _ rest] conjI r3 r2)
  qed
  have second: "\<not> needsResearch ?i \<longrightarrow>
      (\<exists>new. calls ?s' = calls s @ new \<and>
          (map fst new = [] \<or> map fst new = [op_conduct] \<or>
           map fst new = [op_conduct, op_validateCode]))"
  proof
    assume n: "\<not> needsResearch ?i"
    show "\<exists>new. calls ?s' = calls s @ new \<and>
          (map fst new = [] \<or> map fst new = [op_conduct] \<or>
           map fst new = [op_conduct, op_validateCode])"
    proof (cases "\<not> isProcessing s \<and> trim ?i \<noteq> []")
      case True
      then have np: "\<not> isProcessing s" and tr: "trim ?i \<noteq> []" by simp_all
      obtain rest where r1: "calls ?s' = calls s3 @ rest"
        and r2: "map fst rest = [] \<or> map fst rest = [op_validateCode]"
        using acc [OF np tr] by (elim exE conjE)
      from n c2 have "calls s2 = calls s" by simp
      with r1 c3 have 1: "calls ?s' = calls s @ ((op_conduct, ?c) # rest)" by simp
      from r2 have 2: "map fst ((op_conduct, ?c) # rest) = [] \<or>
           map fst ((op_conduct, ?c) # rest) = [op_conduct] \<or>
           map fst ((op_conduct, ?c) # rest) = [op_conduct, op_validateCode]"
        by simp
      show ?thesis by (intro exI [of _ "(op_conduct, ?c) # rest"] conjI 1 2)
    next
      case False
      then have "trim ?i = [] \<or> isProcessing s" by auto
      then have "?s' = s" by (rule handleSendMessage_rejected)
      then have "calls ?s' = calls s @ []" by simp
      then show ?thesis by (intro exI [of _ "[]"]) simp
    qed
  qed
  show ?thesis by (rule conjI [OF first second])
qed

text \<open>
  The theorem at the input \<^verbatim>\<open>What is the capital of France?\<close>, which matches
  \<^verbatim>\<open>what is\<close>, and at \<^verbatim>\<open>hello\<close>, which matches nothing.
\<close>

theorem research_call_order_witness:
  "\<not> isProcessing (view ''What is the capital of France?'' None None) \<and>
   needsResearch (inputValue (view ''What is the capital of France?'' None None)) \<and>
   (\<exists>c rest.
       calls (handleSendMessage (env_with (replying ''Paris.'')) initial_config
                (view ''What is the capital of France?'' None None)) =
         (op_research, research_request ''What is the capital of France?'' initial_config) #
         (op_conduct, c) # rest \<and>
       (map fst rest = [] \<or> map fst rest = [op_validateCode])) \<and>
   \<not> needsResearch (inputValue (view ''hello'' None None)) \<and>
   (\<exists>new.
       calls (handleSendMessage (env_with (replying ''Paris.'')) initial_config
                (view ''hello'' None None)) = new \<and>
       (map fst new = [] \<or> map fst new = [op_conduct] \<or>
        map fst new = [op_conduct, op_validateCode]))"
proof -
  let ?e = "env_with (replying ''Paris.'')"
  let ?q = "view ''What is the capital of France?'' None None"
  let ?h = "view ''hello'' None None"
  have h1: "\<not> isProcessing ?q" and h2: "needsResearch (inputValue ?q)"
    and h3: "\<not> needsResearch (inputValue ?h)"
    by (simp_all add: question_facts hello_facts)
  note t1 = research_call_order [of ?q ?e initial_config, THEN conjunct1, THEN mp, OF conjI [OF h1 h2]]
  note t2 = research_call_order [of ?h ?e initial_config, THEN conjunct2, THEN mp, OF h3]
  have 1: "\<exists>c rest.
       calls (handleSendMessage ?e initial_config ?q) =
         (op_research, research_request ''What is the capital of France?'' initial_config) #
         (op_conduct, c) # rest \<and>
       (map fst rest = [] \<or> map fst rest = [op_validateCode])"
    using t1 by (simp add: question_facts)
  have 2: "\<exists>new.
       calls (handleSendMessage ?e initial_config ?h) = new \<and>
       (map fst new = [] \<or> map fst new = [op_conduct] \<or>
        map fst new = [op_conduct, op_validateCode])"
    using t2 by (simp add: hello_facts)
  show ?thesis by (intro conjI h1 h2 h3 1 2)
qed

subsection \<open>Research and validation degrade\<close>

text \<open>
  C6. When the request of \<^verbatim>\<open>research\<close> fails, \<^verbatim>\<open>research\<close> returns the fixed apology with
  no sources; when the request of \<^verbatim>\<open>validateCode\<close> fails, \<^verbatim>\<open>validateCode\<close> returns the
  fixed timed-out text (both functions return a value on every path). The turn goes on in
  both cases: after a failed research the conversation request is sent, with a prompt
  built from the apology; after a failed validation of a proposal \<open>p\<close> the timed-out
  text is the validation report, the assistant message carrying \<open>p\<close> follows the user
  message, and \<open>p\<close> is pending.
\<close>

theorem research_and_validation_degrade:
  "(backend e (length (calls s)) (research_request q config) = Inl err \<longrightarrow>
      fst (research e q config s) = \<lparr>res_text = Some research_apology, sources = []\<rparr>) \<and>
   (backend e (length (calls s)) (validate_request e code requirements config) = Inl err \<longrightarrow>
      fst (validateCode e code requirements config s) = Some validation_timed_out) \<and>
   (\<not> isProcessing s \<and> needsResearch (inputValue s) \<and>
    backend e (length (calls s)) (research_request (inputValue s) config) = Inl err \<longrightarrow>
      (\<exists>rest. calls (handleSendMessage e config s) =
          calls s @ (op_research, research_request (inputValue s) config) #
            (op_conduct,
             conduct_request
               (''Research Findings:'' @ [newline] @ research_apology @ [newline, newline] @
                ''Original Request: '' @ inputValue s)
               (filesContext (project s)) (aiMode s) config) # rest)) \<and>
   (\<not> isProcessing s \<and> trim (inputValue s) \<noteq> [] \<and>
    research_step e config (inputValue s) (begin_turn e s) = (prompt, s2) \<and>
    conduct e prompt (filesContext (project s)) (aiMode s) config s2 = (Inr response, s3) \<and>
    parseProposal e response = Some p \<and>
    backend e (length (calls s3))
      (validate_request e (prop_content p) (description p) config) = Inl err \<longrightarrow>
      validationReport (handleSendMessage e config s) = Some (Some validation_timed_out) \<and>
      pendingProposal (handleSendMessage e config s) = Some p \<and>
      (\<exists>u a. messages (handleSendMessage e config s) = messages s @ [u, a] \<and>
          msg_role u = user \<and> msg_role a = assistant \<and> pendingChange a = Some p \<and>
          msg_content a = or_else response ''Cluster returned empty response.''))"
proof -
  have p1: "(backend e (length (calls s)) (research_request q config) = Inl err \<longrightarrow>
      fst (research e q config s) = \<lparr>res_text = Some research_apology, sources = []\<rparr>)"
  proof
    assume "backend e (length (calls s)) (research_request q config) = Inl err"
    then show "fst (research e q config s) = \<lparr>res_text = Some research_apology, sources = []\<rparr>"
      by (rule research_degraded)
  qed
  have p2: "(backend e (length (calls s)) (validate_request e code requirements config) = Inl err \<longrightarrow>
      fst (validateCode e code requirements config s) = Some validation_timed_out)"
  proof
    assume "backend e (length (calls s)) (validate_request e code requirements config) = Inl err"
    then show "fst (validateCode e code requirements config s) = Some validation_timed_out"
      by (rule validateCode_degraded)
  qed
  have p3: "(\<not> isProcessing s \<and> needsResearch (inputValue s) \<and>
    backend e (length (calls s)) (research_request (inputValue s) config) = Inl err \<longrightarrow>
      (\<exists>rest. calls (handleSendMessage e config s) =
          calls s @ (op_research, research_request (inputValue s) config) #
            (op_conduct,
             conduct_request
               (''Research Findings:'' @ [newline] @ research_apology @ [newline, newline] @
                ''Original Request: '' @ inputValue s)
               (filesContext (project s)) (aiMode s) config) # rest))"
  proof
    let ?i = "inputValue s"
    assume h: "\<not> isProcessing s \<and> needsResearch ?i \<and>
      backend e (length (calls s)) (research_request ?i config) = Inl err"
    then have np: "\<not> isProcessing s" and nr: "needsResearch ?i"
      and bf: "backend e (length (calls (begin_turn e s))) (research_request ?i config) = Inl err"
      by simp_all
    have tr: "trim ?i \<noteq> []" by (rule needsResearch_not_blank [OF nr])
    let ?p = "''Research Findings:'' @ [newline] @ research_apology @ [newline, newline] @
                  ''Original Request: '' @ ?i"
    have pr: "fst (research_step e config ?i (begin_turn e s)) = ?p"
      using nr research_degraded [OF bf] by (simp add: research_step_prompt template_str_def)
    define s2 where "s2 = snd (research_step e config ?i (begin_turn e s))"
    have rs: "research_step e config ?i (begin_turn e s) = (?p, s2)"
      using pr s2_def by (metis prod.collapse)
    have c2: "calls s2 = calls s @ [(op_research, research_request ?i config)]"
      using nr by (simp add: s2_def)
    obtain rest where "calls (handleSendMessage e config s) =
        calls s2 @ (op_conduct, conduct_request ?p (filesContext (project s)) (aiMode s) config) # rest"
      using handleSendMessage_calls [OF np tr rs] by (elim exE)
    with c2 have "calls (handleSendMessage e config s) =
            calls s @ (op_research, research_request ?i config) #
              (op_conduct, conduct_request ?p (filesContext (project s)) (aiMode s) config) # rest"
      by simp
    then show "\<exists>rest. calls (handleSendMessage e config s) =
            calls s @ (op_research, research_request ?i config) #
              (op_conduct, conduct_request ?p (filesContext (project s)) (aiMode s) config) # rest"
      by (rule exI)
  qed
  have p4: "(\<not> isProcessing s \<and> trim (inputValue s) \<noteq> [] \<and>
    research_step e config (inputValue s) (begin_turn e s) = (prompt, s2) \<and>
    conduct e prompt (filesContext (project s)) (aiMode s) config s2 = (Inr response, s3) \<and>
    parseProposal e response = Some p \<and>
    backend e (length (calls s3))
      (validate_request e (prop_content p) (description p) config) = Inl err \<longrightarrow>
      validationReport (handleSendMessage e config s) = Some (Some validation_timed_out) \<and>
      pendingProposal (handleSendMessage e config s) = Some p \<and>
      (\<exists>u a. messages (handleSendMessage e config s) = messages s @ [u, a] \<and>
          msg_role u = user \<and> msg_role a = assistant \<and> pendingChange a = Some p \<and>
          msg_content a = or_else response ''Cluster returned empty response.''))"
  proof
    assume h: "\<not> isProcessing s \<and> trim (inputValue s) \<noteq> [] \<and>
      research_step e config (inputValue s) (begin_turn e s) = (prompt, s2) \<and>
      conduct e prompt (filesContext (project s)) (aiMode s) config s2 = (Inr response, s3) \<and>
      parseProposal e response = Some p \<and>
      backend e (length (calls s3))
        (validate_request e (prop_content p) (description p) config) = Inl err"
    then have a: "\<not> isProcessing s" "trim (inputValue s) \<noteq> []"
      and rs: "research_step e config (inputValue s) (begin_turn e s) = (prompt, s2)"
      and cd: "conduct e prompt (filesContext (project s)) (aiMode s) config s2 = (Inr response, s3)"
      and pp: "parseProposal e response = Some p"
      and bf: "backend e (length (calls s3))
        (validate_request e (prop_content p) (description p) config) = Inl err"
      by simp_all
    have s2: "s2 = snd (research_step e config (inputValue s) (begin_turn e s))" using rs by simp
    have s3: "s3 = snd (conduct e prompt (filesContext (project s)) (aiMode s) config s2)"
      using cd by simp
    have m3: "messages s3 = messages s @
       [\<lparr>msg_id = random_src e (randoms_drawn s), msg_role = user,
         msg_content = inputValue s, pendingChange = None\<rparr>]"
      by (simp add: s3 s2)
    note eq = handleSendMessage_accepted [OF a rs cd]
    let ?s4 = "snd (proposal_step e config response s3)"
    have e': "handleSendMessage e config s =
        (finish_turn e response (Some p) ?s4)\<lparr>isProcessing := False\<rparr>"
      using eq pp by simp
    have v: "validationReport (handleSendMessage e config s) = Some (Some validation_timed_out)"
      using validateCode_degraded [OF bf] by (simp add: e' pp)
    have pd: "pendingProposal (handleSendMessage e config s) = Some p"
      by (simp add: e')
    let ?u = "\<lparr>msg_id = random_src e (randoms_drawn s), msg_role = user,
         msg_content = inputValue s, pendingChange = None\<rparr>"
    let ?a = "\<lparr>msg_id = random_src e (randoms_drawn ?s4), msg_role = assistant,
         msg_content = or_else response ''Cluster returned empty response.'',
         pendingChange = Some p\<rparr>"
    have ms: "messages (handleSendMessage e config s) = messages s @ [?u, ?a]"
      by (simp add: e' m3)
    have "messages (handleSendMessage e config s) = messages s @ [?u, ?a] \<and>
            msg_role ?u = user \<and> msg_role ?a = assistant \<and> pendingChange ?a = Some p \<and>
            msg_content ?a = or_else response ''Cluster returned empty response.''"
      using ms by simp
    then have "\<exists>u a. messages (handleSendMessage e config s) = messages s @ [u, a] \<and>
            msg_role u = user \<and> msg_role a = assistant \<and> pendingChange a = Some p \<and>
            msg_content a = or_else response ''Cluster returned empty response.''"
      by (intro exI)
    with v pd show "validationReport (handleSendMessage e config s) =
        Some (Some validation_timed_out) \<and>
        pendingProposal (handleSendMessage e config s) = Some p \<and>
        (\<exists>u a. messages (handleSendMessage e config s) = messages s @ [u, a] \<and>
            msg_role u = user \<and> msg_role a = assistant \<and> pendingChange a = Some p \<and>
            msg_content a = or_else response ''Cluster returned empty response.'')"
      by (intro conjI)
  qed
  show ?thesis by (intro conjI p1 p2 p3 p4)
qed

text \<open>
  The theorem with a backend whose search requests fail, and with one whose validation
  requests fail while the conductor answers with the proposal for \<^verbatim>\<open>utils.ts\<close>.
\<close>

theorem research_and_validation_degrade_witness:
  "fst (research (env_with (search_down ''Paris.'')) ''What is the capital of France?''
          initial_config (view ''What is the capital of France?'' None None)) =
     \<lparr>res_text = Some research_apology, sources = []\<rparr> \<and>
   fst (validateCode (env_with (validator_down reply_with_block))
          (prop_content utils_proposal) (description utils_proposal) initial_config
          (view ''add an export'' None None)) = Some validation_timed_out \<and>
   (\<exists>rest.
       calls (handleSendMessage (env_with (search_down ''Paris.'')) initial_config
                (view ''What is the capital of France?'' None None)) =
         (op_research, research_request ''What is the capital of France?'' initial_config) #
         (op_conduct,
          conduct_request
            (''Research Findings:'' @ [newline] @ research_apology @ [newline, newline] @
             ''Original Request: What is the capital of France?'')
            (filesContext two_files) precision initial_config) # rest) \<and>
   validationReport (handleSendMessage (env_with (validator_down reply_with_block)) initial_config
      (view ''add an export'' None None)) = Some (Some validation_timed_out) \<and>
   pendingProposal (handleSendMessage (env_with (validator_down reply_with_block)) initial_config
      (view ''add an export'' None None)) = Some utils_proposal \<and>
   (\<exists>u a. messages (handleSendMessage (env_with (validator_down reply_with_block))
               initial_config (view ''add an export'' None None)) = [u, a] \<and>
       msg_role u = user \<and> msg_role a = assistant \<and> pendingChange a = Some utils_proposal \<and>
       msg_content a = reply_with_block)"
proof -
  let ?e1 = "env_with (search_down ''Paris.'')"
  let ?e2 = "env_with (validator_down reply_with_block)"
  let ?q = "view ''What is the capital of France?'' None None"
  let ?x = "view ''add an export'' None None"
  have b1: "backend ?e1 (length (calls ?q))
              (research_request ''What is the capital of France?'' initial_config) =
            Inl (ApiError ''Failed to fetch'')"
    by (simp add: env_with_def search_down_def offline_def research_request_def)
  have b2: "\<And>k c r. backend ?e2 k (validate_request ?e2 c r initial_config) =
            Inl (ApiError ''Failed to fetch'')"
    by (simp add: env_with_def validator_down_def offline_def validate_request_def)
  have q1: "\<not> isProcessing ?q" and q2: "needsResearch (inputValue ?q)"
    by (simp_all add: question_facts)
  have x1: "\<not> isProcessing ?x" and x2: "trim (inputValue ?x) \<noteq> []"
    by (simp_all add: export_facts)
  have x3: "research_step ?e2 initial_config (inputValue ?x) (begin_turn ?e2 ?x) =
              (''add an export'', begin_turn ?e2 ?x)"
    by (simp add: research_step_def export_facts)
  have f: "fst (conduct ?e2 ''add an export'' (filesContext two_files) precision initial_config
                 (begin_turn ?e2 ?x)) = Inr (Some reply_with_block)"
    by (simp add: conduct_outcome env_with_def validator_down_def replying_def
        conduct_request_def Let_def)
  then obtain s3 where x4: "conduct ?e2 ''add an export'' (filesContext (project ?x)) (aiMode ?x)
                 initial_config (begin_turn ?e2 ?x) = (Inr (Some reply_with_block), s3)"
    by (cases "conduct ?e2 ''add an export'' (filesContext two_files) precision initial_config
                 (begin_turn ?e2 ?x)") (simp add: export_facts)
  have x5: "parseProposal ?e2 (Some reply_with_block) = Some utils_proposal"
    by (rule parse_reply_with_block)
  have x6: "backend ?e2 (length (calls s3))
      (validate_request ?e2 (prop_content utils_proposal) (description utils_proposal)
         initial_config) = Inl (ApiError ''Failed to fetch'')"
    by (rule b2)
  note t1 = research_and_validation_degrade [of ?e1 ?q "''What is the capital of France?''"
      initial_config "ApiError ''Failed to fetch''"]
  note t2 = research_and_validation_degrade [of ?e2 ?x _ initial_config
      "ApiError ''Failed to fetch''" "prop_content utils_proposal" "description utils_proposal"
      "''add an export''" "begin_turn ?e2 ?x" "Some reply_with_block" s3 utils_proposal]
  have 1: "fst (research ?e1 ''What is the capital of France?'' initial_config ?q) =
     \<lparr>res_text = Some research_apology, sources = []\<rparr>"
    using t1 [THEN conjunct1, THEN mp, OF b1] .
  have 2: "fst (validateCode ?e2 (prop_content utils_proposal) (description utils_proposal)
             initial_config ?x) = Some validation_timed_out"
    using t2 [THEN conjunct2, THEN conjunct1, THEN mp, OF b2] .
  have b1': "backend ?e1 (length (calls ?q)) (research_request (inputValue ?q) initial_config) =
            Inl (ApiError ''Failed to fetch'')"
    using b1 by (simp add: question_facts)
  have 3: "\<exists>rest. calls (handleSendMessage ?e1 initial_config ?q) =
         (op_research, research_request ''What is the capital of France?'' initial_config) #
         (op_conduct,
          conduct_request
            (''Research Findings:'' @ [newline] @ research_apology @ [newline, newline] @
             ''Original Request: What is the capital of France?'')
            (filesContext two_files) precision initial_config) # rest"
    using t1 [THEN conjunct2, THEN conjunct2, THEN conjunct1, THEN mp,
        OF conjI [OF q1 conjI [OF q2 b1']]]
    by (simp add: question_facts)
  note t4 = t2 [THEN conjunct2, THEN conjunct2, THEN conjunct2, THEN mp,
        OF conjI [OF x1 conjI [OF x2 conjI [OF x3 conjI [OF x4 conjI [OF x5 x6]]]]]]
  have 4: "validationReport (handleSendMessage ?e2 initial_config ?x) =
             Some (Some validation_timed_out)"
    using t4 by simp
  have 5: "pendingProposal (handleSendMessage ?e2 initial_config ?x) = Some utils_proposal"
    using t4 by simp
  have r: "reply_with_block \<noteq> []"
    by (simp add: reply_with_block_def)
  have 6: "\<exists>u a. messages (handleSendMessage ?e2 initial_config ?x) = [u, a] \<and>
       msg_role u = user \<and> msg_role a = assistant \<and> pendingChange a = Some utils_proposal \<and>
       msg_content a = reply_with_block"
    using t4 by (simp add: export_facts r)
  show ?thesis by (intro conjI 1 2 3 4 5 6)
qed

subsection \<open>The reasoning budget\<close>

text \<open>
  C7. The request of \<^verbatim>\<open>conduct\<close> carries a thinking budget exactly when the mode is
  precision and the configured conductor model contains \<^verbatim>\<open>pro\<close>, \<^verbatim>\<open>gemini-3\<close> or
  \<^verbatim>\<open>gemini-2.5\<close>; the budget is 32768 when the model contains \<^verbatim>\<open>pro\<close> and the smaller
  24576 otherwise; in speed mode and for any other model there is none. This is the
  request \<^verbatim>\<open>conduct\<close> sends.
\<close>

theorem thinking_budget_rule:
  "thinkingBudget (conduct_request prompt context m config) =
     (if m = precision \<and>
         (str_includes (conductorModel config) ''pro'' \<or>
          str_includes (conductorModel config) ''gemini-3'' \<or>
          str_includes (conductorModel config) ''gemini-2.5'')
      then Some (if str_includes (conductorModel config) ''pro'' then 32768 else 24576)
      else None) \<and>
   (24576 :: nat) < 32768 \<and>
   calls (snd (conduct e prompt context m config s)) =
     calls s @ [(op_conduct, conduct_request prompt context m config)]"
  by (simp add: conduct_request_def conduct_model_def Let_def conduct_calls)

text \<open>The theorem at three models in precision mode, and in speed mode.\<close>

theorem thinking_budget_rule_witness:
  "thinkingBudget (conduct_request ''hi'' ''No files yet.'' precision initial_config) = Some 32768 \<and>
   thinkingBudget (conduct_request ''hi'' ''No files yet.'' precision
      (initial_config\<lparr>conductorModel := ''gemini-3-flash-preview''\<rparr>)) = Some 24576 \<and>
   thinkingBudget (conduct_request ''hi'' ''No files yet.'' precision
      (initial_config\<lparr>conductorModel := ''gemini-flash-lite-latest''\<rparr>)) = None \<and>
   thinkingBudget (conduct_request ''hi'' ''No files yet.'' speed initial_config) = None"
  using thinking_budget_rule [of "''hi''" "''No files yet.''" precision initial_config]
    thinking_budget_rule [of "''hi''" "''No files yet.''" precision
      "initial_config\<lparr>conductorModel := ''gemini-3-flash-preview''\<rparr>"]
    thinking_budget_rule [of "''hi''" "''No files yet.''" precision
      "initial_config\<lparr>conductorModel := ''gemini-flash-lite-latest''\<rparr>"]
    thinking_budget_rule [of "''hi''" "''No files yet.''" speed initial_config]
  by (simp add: initial_config_def)

subsection \<open>One pending proposal\<close>

text \<open>
  C8. The state holds the pending proposal in one optional field, so there is never more
  than one. \<^verbatim>\<open>handleSendMessage\<close> never changes the project, whatever the turn does. When
  the turn is accepted and \<^verbatim>\<open>conduct\<close> returns a response, the pending proposal after the
  turn is the proposal of that response when it has one, whatever was pending before, and
  is unchanged when it has none.
\<close>

theorem single_pending_proposal:
  "project (handleSendMessage e config s) = project s \<and>
   (\<not> isProcessing s \<and> trim (inputValue s) \<noteq> [] \<and>
    research_step e config (inputValue s) (begin_turn e s) = (prompt, s2) \<and>
    conduct e prompt (filesContext (project s)) (aiMode s) config s2 = (Inr response, s3) \<longrightarrow>
      pendingProposal (handleSendMessage e config s) =
        (case parseProposal e response of
           Some p \<Rightarrow> Some p
         | None \<Rightarrow> pendingProposal s))"
proof (intro conjI impI)
  show "project (handleSendMessage e config s) = project s"
    by (rule handleSendMessage_project)
next
  assume h: "\<not> isProcessing s \<and> trim (inputValue s) \<noteq> [] \<and>
    research_step e config (inputValue s) (begin_turn e s) = (prompt, s2) \<and>
    conduct e prompt (filesContext (project s)) (aiMode s) config s2 = (Inr response, s3)"
  then have a: "\<not> isProcessing s" "trim (inputValue s) \<noteq> []"
    and rs: "research_step e config (inputValue s) (begin_turn e s) = (prompt, s2)"
    and cd: "conduct e prompt (filesContext (project s)) (aiMode s) config s2 = (Inr response, s3)"
    by simp_all
  have s2: "s2 = snd (research_step e config (inputValue s) (begin_turn e s))" using rs by simp
  have s3: "s3 = snd (conduct e prompt (filesContext (project s)) (aiMode s) config s2)"
    using cd by simp
  have p3: "pendingProposal s3 = pendingProposal s" by (simp add: s3 s2)
  note eq = handleSendMessage_accepted [OF a rs cd]
  show "pendingProposal (handleSendMessage e config s) =
        (case parseProposal e response of Some p \<Rightarrow> Some p | None \<Rightarrow> pendingProposal s)"
    using eq p3 by (simp split: option.splits)
qed

text \<open>
  The theorem at a view where a proposal for \<^verbatim>\<open>README\<close> is pending and the conductor
  answers with the proposal for \<^verbatim>\<open>utils.ts\<close>: the latter is pending afterwards and the
  project is the same.
\<close>

theorem single_pending_proposal_witness:
  "\<not> isProcessing (view ''add an export'' (Some readme_proposal) None) \<and>
   trim (inputValue (view ''add an export'' (Some readme_proposal) None)) \<noteq> [] \<and>
   fst (conduct (env_with (replying reply_with_block)) ''add an export''
          (filesContext two_files) precision initial_config
          (begin_turn (env_with (replying reply_with_block))
             (view ''add an export'' (Some readme_proposal) None))) =
     Inr (Some reply_with_block) \<and>
   pendingProposal (view ''add an export'' (Some readme_proposal) None) = Some readme_proposal \<and>
   pendingProposal (handleSendMessage (env_with (replying reply_with_block)) initial_config
      (view ''add an export'' (Some readme_proposal) None)) = Some utils_proposal \<and>
   project (handleSendMessage (env_with (replying reply_with_block)) initial_config
      (view ''add an export'' (Some readme_proposal) None)) = two_files"
proof -
  let ?e = "env_with (replying reply_with_block)"
  let ?s = "view ''add an export'' (Some readme_proposal) None"
  have h1: "\<not> isProcessing ?s" and h2: "trim (inputValue ?s) \<noteq> []"
    by (simp_all add: export_facts)
  have h3: "research_step ?e initial_config (inputValue ?s) (begin_turn ?e ?s) =
              (''add an export'', begin_turn ?e ?s)"
    by (simp add: research_step_def export_facts)
  have f: "fst (conduct ?e ''add an export'' (filesContext two_files) precision initial_config
                 (begin_turn ?e ?s)) = Inr (Some reply_with_block)"
    by (simp add: conduct_outcome env_with_def replying_def)
  then obtain s3 where h4: "conduct ?e ''add an export'' (filesContext (project ?s)) (aiMode ?s)
                 initial_config (begin_turn ?e ?s) = (Inr (Some reply_with_block), s3)"
    by (cases "conduct ?e ''add an export'' (filesContext two_files) precision initial_config
                 (begin_turn ?e ?s)") (simp add: export_facts)
  note t = single_pending_proposal [of ?e initial_config ?s "''add an export''"
      "begin_turn ?e ?s" "Some reply_with_block" s3]
  have 1: "project (handleSendMessage ?e initial_config ?s) = two_files"
    using t [THEN conjunct1] by (simp add: export_facts)
  have 2: "pendingProposal (handleSendMessage ?e initial_config ?s) = Some utils_proposal"
    using t [THEN conjunct2, THEN mp, OF conjI [OF h1 conjI [OF h2 conjI [OF h3 h4]]]]
    by (simp add: parse_reply_with_block)
  have 3: "pendingProposal ?s = Some readme_proposal" by (simp add: export_facts)
  show ?thesis by (intro conjI h1 h2 f 1 2 3)
qed

subsection \<open>The model of speed mode\<close>

text \<open>
  C9. In speed mode \<^verbatim>\<open>conduct\<close> sends exactly one request, the one it builds, and the model
  of that request is \<^verbatim>\<open>gemini-flash-lite-latest\<close>; its result is the outcome of that
  request. Neither the request nor anything else \<^verbatim>\<open>conduct\<close> does in speed mode depends on
  the configuration. In precision mode the one request it sends goes to the configured
  conductor model.
\<close>

theorem speed_mode_fixed_model:
  "calls (snd (conduct e prompt context speed config s)) =
     calls s @ [(op_conduct, conduct_request prompt context speed config)] \<and>
   model (conduct_request prompt context speed config) = ''gemini-flash-lite-latest'' \<and>
   fst (conduct e prompt context speed config s) =
     (case backend e (length (calls s)) (conduct_request prompt context speed config) of
        Inl err \<Rightarrow> Inl err
      | Inr resp \<Rightarrow> Inr (resp_text resp)) \<and>
   conduct_request prompt context speed config = conduct_request prompt context speed config' \<and>
   conduct e prompt context speed config s = conduct e prompt context speed config' s \<and>
   calls (snd (conduct e prompt context precision config s)) =
     calls s @ [(op_conduct, conduct_request prompt context precision config)] \<and>
   model (conduct_request prompt context precision config) = conductorModel config"
proof -
  have 1: "calls (snd (conduct e prompt context speed config s)) =
     calls s @ [(op_conduct, conduct_request prompt context speed config)]"
    by (rule conduct_calls)
  have 2: "model (conduct_request prompt context speed config) = ''gemini-flash-lite-latest''"
    by (simp add: conduct_request_def conduct_model_def Let_def)
  have 3: "fst (conduct e prompt context speed config s) =
     (case backend e (length (calls s)) (conduct_request prompt context speed config) of
        Inl err \<Rightarrow> Inl err
      | Inr resp \<Rightarrow> Inr (resp_text resp))"
    by (rule conduct_outcome)
  have 4: "conduct_request prompt context speed config =
           conduct_request prompt context speed config'"
    by (simp add: conduct_request_def conduct_model_def Let_def)
  have 5: "conduct e prompt context speed config s = conduct e prompt context speed config' s"
    by (simp add: conduct_request_def conduct_model_def conduct_def Let_def)
  have 6: "calls (snd (conduct e prompt context precision config s)) =
     calls s @ [(op_conduct, conduct_request prompt context precision config)]"
    by (rule conduct_calls)
  have 7: "model (conduct_request prompt context precision config) = conductorModel config"
    by (simp add: conduct_request_def conduct_model_def Let_def)
  show ?thesis by (intro conjI 1 2 3 4 5 6 7)
qed

text \<open>
  The theorem at the initial configuration and at one with another conductor model: the
  requests sent, with their models.
\<close>

theorem speed_mode_fixed_model_witness:
  "map (\<lambda>c. (fst c, model (snd c)))
     (calls (snd (conduct (env_with offline) ''hi'' ''No files yet.'' speed initial_config
                    (view [] None None)))) =
     [(op_conduct, ''gemini-flash-lite-latest'')] \<and>
   map (\<lambda>c. (fst c, model (snd c)))
     (calls (snd (conduct (env_with offline) ''hi'' ''No files yet.'' speed
                    (initial_config\<lparr>conductorModel := ''gemini-2.5-pro''\<rparr>)
                    (view [] None None)))) =
     [(op_conduct, ''gemini-flash-lite-latest'')] \<and>
   conduct (env_with offline) ''hi'' ''No files yet.'' speed initial_config (view [] None None) =
   conduct (env_with offline) ''hi'' ''No files yet.'' speed
     (initial_config\<lparr>conductorModel := ''gemini-2.5-pro''\<rparr>) (view [] None None) \<and>
   map (\<lambda>c. (fst c, model (snd c)))
     (calls (snd (conduct (env_with offline) ''hi'' ''No files yet.'' precision initial_config
                    (view [] None None)))) =
     [(op_conduct, ''gemini-3-pro-preview'')]"
proof -
  let ?c' = "initial_config\<lparr>conductorModel := ''gemini-2.5-pro''\<rparr>"
  note t = speed_mode_fixed_model [of "env_with offline" "''hi''" "''No files yet.''"
      initial_config "view [] None None" ?c']
  note u = speed_mode_fixed_model [of "env_with offline" "''hi''" "''No files yet.''"
      ?c' "view [] None None" initial_config]
  have c: "conductorModel initial_config = ''gemini-3-pro-preview''"
    by (simp add: initial_config_def)
  have v: "calls (view [] None None) = []" by (simp add: view_def)
  have 1: "map (\<lambda>c. (fst c, model (snd c)))
     (calls (snd (conduct (env_with offline) ''hi'' ''No files yet.'' speed initial_config
                    (view [] None None)))) = [(op_conduct, ''gemini-flash-lite-latest'')]"
    using t [THEN conjunct1] t [THEN conjunct2, THEN conjunct1] by (simp add: v)
  have 2: "map (\<lambda>c. (fst c, model (snd c)))
     (calls (snd (conduct (env_with offline) ''hi'' ''No files yet.'' speed ?c'
                    (view [] None None)))) = [(op_conduct, ''gemini-flash-lite-latest'')]"
    using u [THEN conjunct1] u [THEN conjunct2, THEN conjunct1] by (simp add: v)
  have 3: "conduct (env_with offline) ''hi'' ''No files yet.'' speed initial_config
             (view [] None None) =
           conduct (env_with offline) ''hi'' ''No files yet.'' speed ?c' (view [] None None)"
    by (rule t [THEN conjunct2, THEN conjunct2, THEN conjunct2, THEN conjunct2, THEN conjunct1])
  have 4: "map (\<lambda>c. (fst c, model (snd c)))
     (calls (snd (conduct (env_with offline) ''hi'' ''No files yet.'' precision initial_config
                    (view [] None None)))) = [(op_conduct, ''gemini-3-pro-preview'')]"
    using t [THEN conjunct2, THEN conjunct2, THEN conjunct2, THEN conjunct2, THEN conjunct2]
    by (simp add: v c)
  show ?thesis by (intro conjI 1 2 3 4)
qed

subsection \<open>The language tag\<close>

text \<open>
  C10, as the code has it. When a proposal named by the string \<open>fn\<close> is approved, the
  file written is among the files of the project, and its language tag is the part of
  \<open>fn\<close> after its last dot (all of \<open>fn\<close> when it has no dot) unless that part is empty,
  and \<^verbatim>\<open>txt\<close> when it is empty, which is the case exactly when \<open>fn\<close> is empty or ends
  with a dot.
\<close>

theorem language_tag_rule:
  assumes "pendingProposal s = Some p" and "fileName p = Some (JStr fn)"
  shows "written_file fn p \<in> set (approved_files e s) \<and>
         language (written_file fn p) =
           (if after_last_dot fn = [] then ''txt'' else after_last_dot fn) \<and>
         (after_last_dot fn = [] \<longleftrightarrow> fn = [] \<or> last fn = CHR ''.'') \<and>
         (CHR ''.'' \<notin> set fn \<longrightarrow> after_last_dot fn = fn) \<and>
         (\<forall>a b. fn = a @ CHR ''.'' # b \<and> CHR ''.'' \<notin> set b \<longrightarrow> after_last_dot fn = b)"
proof -
  let ?fs = "files (project s)"
  let ?i = "findIndex ?fs (\<lambda>f. name f = fn)"
  obtain s' where ap: "approveProposal e s = Inr s'"
    and fs': "files (project s') =
                (if ?i \<ge> 0 then ?fs[nat ?i := written_file fn p] else ?fs @ [written_file fn p])"
    using approveProposal_files [OF assms] by blast
  have af: "approved_files e s = files (project s')"
    by (simp add: approved_files_def ap)
  have mem: "written_file fn p \<in> set (approved_files e s)"
  proof (cases "?i \<ge> 0")
    case True
    then have "\<not> (\<forall>x\<in>set ?fs. \<not> name x = fn)"
      using findIndex_none [of ?fs "\<lambda>f. name f = fn"] by auto
    then have "\<exists>x\<in>set ?fs. name x = fn" by simp
    from findIndex_some [OF this] have "nat ?i < length ?fs" by simp
    with True show ?thesis by (simp add: af fs' set_update_memI)
  next
    case False
    then show ?thesis by (simp add: af fs')
  qed
  have lang: "language (written_file fn p) =
           (if after_last_dot fn = [] then ''txt'' else after_last_dot fn)"
    by (simp add: written_file_def language_of_eq)
  have e1: "after_last_dot fn = [] \<longleftrightarrow> fn = [] \<or> last fn = CHR ''.''"
    by (rule after_last_dot_empty)
  have e2: "CHR ''.'' \<notin> set fn \<longrightarrow> after_last_dot fn = fn"
    using after_last_dot_no_dot by simp
  have e3: "\<forall>a b. fn = a @ CHR ''.'' # b \<and> CHR ''.'' \<notin> set b \<longrightarrow> after_last_dot fn = b"
    using after_last_dot_after by simp
  show ?thesis by (intro conjI mem lang e1 e2 e3)
qed

text \<open>
  The claim has \<^verbatim>\<open>txt\<close> for the empty name only. The name \<^verbatim>\<open>notes.\<close> is not empty, the
  part after its last dot is empty, and the file written for it has the tag \<^verbatim>\<open>txt\<close>.
\<close>

theorem language_tag_counterexample:
  "last (approved_files (env_with offline) (view [] (Some notes_proposal) None)) =
     \<lparr>name = ''notes.'', content = Some (JStr ''to do''), language = ''txt''\<rparr> \<and>
   after_last_dot ''notes.'' = [] \<and> ''notes.'' \<noteq> []"
  by (simp add: approved_files_def approveProposal_def view_def notes_proposal_def two_files_def
      Let_def Math_random_toString_def language_of_def after_last_dot_def)

text \<open>The theorem at the names \<^verbatim>\<open>notes.\<close> and \<^verbatim>\<open>utils.ts\<close>.\<close>

theorem language_tag_rule_witness:
  "pendingProposal (view [] (Some notes_proposal) None) = Some notes_proposal \<and>
   fileName notes_proposal = Some (JStr ''notes.'') \<and>
   written_file ''notes.'' notes_proposal \<in>
     set (approved_files (env_with offline) (view [] (Some notes_proposal) None)) \<and>
   language (written_file ''notes.'' notes_proposal) = ''txt'' \<and>
   pendingProposal (view [] (Some utils_proposal) None) = Some utils_proposal \<and>
   fileName utils_proposal = Some (JStr ''utils.ts'') \<and>
   language (written_file ''utils.ts'' utils_proposal) = ''ts''"
proof -
  have a: "pendingProposal (view [] (Some notes_proposal) None) = Some notes_proposal"
    and b: "fileName notes_proposal = Some (JStr ''notes.'')"
    and c: "pendingProposal (view [] (Some utils_proposal) None) = Some utils_proposal"
    and d: "fileName utils_proposal = Some (JStr ''utils.ts'')"
    by (simp_all add: view_def notes_proposal_def utils_proposal_def)
  have n: "after_last_dot ''notes.'' = []" and u: "after_last_dot ''utils.ts'' = ''ts''"
    by (simp_all add: after_last_dot_def)
  show ?thesis
    using language_tag_rule [OF a b, of "env_with offline"]
      language_tag_rule [OF c d, of "env_with offline"] a b c d n u
    by simp
qed

end
